theory Spec2Isabelle
  imports Main "HOL-Library.Word" "HOL-Library.AList"
begin

unbundle bit_operations_syntax

section \<open>Machine integers, constants and errors\<close>

type_synonym u8 = "8 word"
type_synonym u16 = "16 word"
type_synonym u32 = "32 word"
type_synonym u64 = "64 word"

text \<open>
  The ways an operation of the cache can fail to produce a result:
  \<^item> \<open>AssertFailed\<close>: a \<^verbatim>\<open>DebugAssert\<close> of the source does not hold;
  \<^item> \<open>Unreachable\<close>: control reaches \<^verbatim>\<open>DefaultCaseIsUnreachable()\<close>;
  \<^item> \<open>OutOfBounds\<close>: an array (\<^verbatim>\<open>g_vram\<close>, \<^verbatim>\<open>m_page_sources\<close>,
    \<^verbatim>\<open>page_refs\<close>) is indexed outside its extent;
  \<^item> \<open>DanglingPointer\<close>: a \<^verbatim>\<open>Source*\<close> or hash-cache entry pointer that refers
    to no live object is dereferenced.
\<close>

datatype error = AssertFailed | Unreachable | OutOfBounds | DanglingPointer

definition VRAM_WIDTH :: u32 where "VRAM_WIDTH = 1024"
definition VRAM_HEIGHT :: u32 where "VRAM_HEIGHT = 512"
definition TEXTURE_PAGE_WIDTH :: u32 where "TEXTURE_PAGE_WIDTH = 256"
definition TEXTURE_PAGE_HEIGHT :: u32 where "TEXTURE_PAGE_HEIGHT = 256"

definition VRAM_PAGE_WIDTH :: u32 where "VRAM_PAGE_WIDTH = 64"
definition VRAM_PAGE_HEIGHT :: u32 where "VRAM_PAGE_HEIGHT = 256"
definition VRAM_PAGES_WIDE :: u32 where "VRAM_PAGES_WIDE = VRAM_WIDTH div VRAM_PAGE_WIDTH"
definition VRAM_PAGES_HIGH :: u32 where "VRAM_PAGES_HIGH = VRAM_HEIGHT div VRAM_PAGE_HEIGHT"
definition NUM_PAGES :: u32 where "NUM_PAGES = VRAM_PAGES_WIDE * VRAM_PAGES_HIGH"
definition MAX_PAGE_REFS_PER_SOURCE :: nat where "MAX_PAGE_REFS_PER_SOURCE = 6"

definition PageIndex :: "u32 \<Rightarrow> u32 \<Rightarrow> u32" where
  "PageIndex px py = (py * VRAM_PAGES_WIDE) + px"

definition PageStartX :: "u32 \<Rightarrow> u32" where
  "PageStartX pn = (pn mod VRAM_PAGES_WIDE) * VRAM_PAGE_WIDTH"

definition PageStartY :: "u32 \<Rightarrow> u32" where
  "PageStartY pn = (pn div VRAM_PAGES_WIDE) * VRAM_PAGE_HEIGHT"

section \<open>LoopPages\<close>

text \<open>
  \<^verbatim>\<open>LoopPages(x, y, width, height, f)\<close> is modelled by the sequence of page numbers
  it passes to \<open>f\<close>, in call order. The two \<^verbatim>\<open>for\<close> loops count \<open>page_x\<close> and
  \<open>page_y\<close> up to an inclusive end; the ends are quotients by 64 and 256 of a
  32-bit value, so the counters never wrap and are kept as naturals. The inner loop
  carries both \<open>page_number\<close> (what \<open>f\<close> receives) and \<open>y_page_number\<close> (what the
  loop increments), as the source does.
\<close>

function LoopPages_x :: "nat \<Rightarrow> nat \<Rightarrow> u32 \<Rightarrow> u32 \<Rightarrow> u32 list" where
  "LoopPages_x page_x end_x page_number y_page_number =
     (if page_x \<le> end_x
      then page_number # LoopPages_x (Suc page_x) end_x page_number (y_page_number + 1)
      else [])"
  by pat_completeness auto
termination
  by (relation "measure (\<lambda>(page_x, end_x, _, _). Suc end_x - page_x)") auto

function LoopPages_y :: "nat \<Rightarrow> nat \<Rightarrow> nat \<Rightarrow> nat \<Rightarrow> u32 \<Rightarrow> u32 list" where
  "LoopPages_y start_x end_x page_y end_y page_number =
     (if page_y \<le> end_y
      then LoopPages_x start_x end_x page_number page_number
           @ LoopPages_y start_x end_x (Suc page_y) end_y (page_number + VRAM_PAGES_WIDE)
      else [])"
  by pat_completeness auto
termination
  by (relation "measure (\<lambda>(_, _, page_y, end_y, _). Suc end_y - page_y)") auto

definition LoopPages :: "u32 \<Rightarrow> u32 \<Rightarrow> u32 \<Rightarrow> u32 \<Rightarrow> error + u32 list" where
  "LoopPages x y width height =
     (if \<not> (width > 0 \<and> height > 0) then Inl AssertFailed
      else if \<not> ((x + width) \<le> VRAM_WIDTH \<and> (y + height) \<le> VRAM_HEIGHT) then Inl AssertFailed
      else
        let start_x = x div VRAM_PAGE_WIDTH;
            start_y = y div VRAM_PAGE_HEIGHT;
            end_x = (x + (width - 1)) div VRAM_PAGE_WIDTH;
            end_y = (y + (height - 1)) div VRAM_PAGE_HEIGHT;
            page_number = PageIndex start_x start_y
        in Inr (LoopPages_y (unat start_x) (unat end_x) (unat start_y) (unat end_y) page_number))"

section \<open>Data model\<close>

datatype GPUTextureMode = Palette4Bit | Palette8Bit | Direct16Bit | Reserved_Direct16Bit

fun mode_u8 :: "GPUTextureMode \<Rightarrow> u8" where
  "mode_u8 Palette4Bit = 0"
| "mode_u8 Palette8Bit = 1"
| "mode_u8 Direct16Bit = 2"
| "mode_u8 Reserved_Direct16Bit = 3"

text \<open>\<open>palette\<close> holds the \<open>bits\<close> of the \<^verbatim>\<open>GPUTexturePaletteReg\<close>; equality of keys
  is equality of the three fields, which is what the bytewise comparison of the four-byte
  struct decides.\<close>

record SourceKey =
  page :: u8
  mode :: GPUTextureMode
  palette :: u16

text \<open>Modelled from the spec: \<^verbatim>\<open>Common::Rectangle<u32>\<close> (common/rectangle.h) is not among
  the sources. A rectangle is its four edges, \<open>right\<close> and \<open>bottom\<close> exclusive; width and
  height are the 32-bit differences of the edges, \<open>Include\<close> is the bounding union and
  \<open>Intersects\<close> holds when the two rectangles overlap on both axes.\<close>

record Rectangle =
  left :: u32
  top :: u32
  right :: u32
  bottom :: u32

definition GetWidth :: "Rectangle \<Rightarrow> u32" where
  "GetWidth rc = right rc - left rc"

definition GetHeight :: "Rectangle \<Rightarrow> u32" where
  "GetHeight rc = bottom rc - top rc"

definition Intersects :: "Rectangle \<Rightarrow> Rectangle \<Rightarrow> bool" where
  "Intersects this rhs =
     (\<not> (left this \<ge> right rhs \<or> left rhs \<ge> right this \<or>
         top this \<ge> bottom rhs \<or> top rhs \<ge> bottom this))"

definition Include :: "Rectangle \<Rightarrow> Rectangle \<Rightarrow> Rectangle" where
  "Include this rhs =
     \<lparr> left = min (left this) (left rhs), top = min (top this) (top rhs),
       right = max (right this) (right rhs), bottom = max (bottom this) (bottom rhs) \<rparr>"

text \<open>The hash cache: keys, and entries owning a host texture. A texture is its handle
  and the 256 rows of RGBA8 texels last decoded into it.\<close>

record HashCacheKey =
  texture_hash :: u64
  palette_hash :: u64
  hmode :: u64

record GPUTexture =
  handle :: nat
  texels :: "u32 list list"

record HashCacheEntry =
  texture :: GPUTexture
  ref_count :: u32
  age :: u32

text \<open>
  Pointers. A \<^verbatim>\<open>Source*\<close> is an address in the heap of live Sources. A
  \<^verbatim>\<open>SourceListNode*\<close> always points into the \<open>page_refs\<close> array of a Source, so a node
  pointer is the pair of the Source's address and the index in that array; the node's
  \<open>ref\<close> field is the first component. A \<^verbatim>\<open>SourceList\<close> is the sequence of its
  nodes from \<open>head\<close> to \<open>tail\<close>: the \<open>prev\<close>/\<open>next\<close> links are the order of the
  sequence. The \<open>list\<close> field of node \<open>i\<close> of a Source is kept in the Source as the
  page number of the list, \<open>page_refs ! i\<close>. A \<^verbatim>\<open>HashCacheEntry*\<close> is the key of the
  entry in the table (entries of an unordered map do not move).
\<close>

type_synonym src_ptr = nat
type_synonym node_ptr = "src_ptr \<times> nat"
type_synonym SourceList = "node_ptr list"

record Source =
  key :: SourceKey
  num_page_refs :: u32
  src_texture :: nat
  from_hash_cache :: "HashCacheKey option"
  page_refs :: "u32 list"

text \<open>The cache object. \<open>m_hash_cache\<close> lists the table in its iteration order.
  \<open>heap\<close> holds the Sources allocated with \<^verbatim>\<open>new\<close> and not yet deleted, and
  \<open>next_ptr\<close> is the next address \<^verbatim>\<open>new\<close> hands out. \<open>recycled\<close> collects the
  textures given back to the device with \<^verbatim>\<open>RecycleTexture\<close>.\<close>

record GPUTextureCache =
  m_drawn_rect :: Rectangle
  m_hash_cache :: "(HashCacheKey \<times> HashCacheEntry) list"
  m_page_sources :: "nat \<Rightarrow> SourceList"
  heap :: "src_ptr \<Rightarrow> Source option"
  next_ptr :: src_ptr
  recycled :: "GPUTexture list"

section \<open>Intrusive lists\<close>

definition ListPrepend :: "SourceList \<Rightarrow> node_ptr \<Rightarrow> SourceList" where
  "ListPrepend list item_node = item_node # list"

definition ListAppend :: "SourceList \<Rightarrow> node_ptr \<Rightarrow> SourceList" where
  "ListAppend list item_node = list @ [item_node]"

definition ListMoveToFront :: "SourceList \<Rightarrow> node_ptr \<Rightarrow> error + SourceList" where
  "ListMoveToFront list item_node =
     (case list of
        [] \<Rightarrow> Inl AssertFailed
      | h # _ \<Rightarrow> if h = item_node then Inr list
                 else Inr (item_node # remove1 item_node list))"

text \<open>\<^verbatim>\<open>ListUnlink(node)\<close> takes the node out of the list its \<open>list\<close> field names.\<close>

definition ListUnlink :: "node_ptr \<Rightarrow> u32 \<Rightarrow> GPUTextureCache \<Rightarrow> error + GPUTextureCache" where
  "ListUnlink node lst s =
     (if \<not> lst < NUM_PAGES then Inl OutOfBounds
      else Inr (s\<lparr>m_page_sources :=
                   (m_page_sources s)(unat lst := remove1 node (m_page_sources s (unat lst)))\<rparr>))"

section \<open>Invalidation\<close>

fun unlink_refs :: "src_ptr \<Rightarrow> u32 list \<Rightarrow> nat \<Rightarrow> nat \<Rightarrow> GPUTextureCache \<Rightarrow> error + GPUTextureCache" where
  "unlink_refs p refs i 0 s = Inr s"
| "unlink_refs p refs i (Suc n) s =
     (if \<not> i < length refs \<or> \<not> i < MAX_PAGE_REFS_PER_SOURCE then Inl OutOfBounds
      else case ListUnlink (p, i) (refs ! i) s of
             Inl e \<Rightarrow> Inl e
           | Inr s' \<Rightarrow> unlink_refs p refs (Suc i) n s')"

text \<open>The body of the loop of \<^verbatim>\<open>InvalidatePage\<close> for one node: unlink every node of
  the Source (for \<open>i\<close> from 0 below \<open>num_page_refs\<close>), release the hash-cache entry,
  delete the Source.\<close>

definition invalidate_source :: "src_ptr \<Rightarrow> GPUTextureCache \<Rightarrow> error + GPUTextureCache" where
  "invalidate_source p s =
     (case heap s p of
        None \<Rightarrow> Inl DanglingPointer
      | Some src \<Rightarrow>
          (case unlink_refs p (page_refs src) 0 (unat (num_page_refs src)) s of
             Inl e \<Rightarrow> Inl e
           | Inr s1 \<Rightarrow>
               (case from_hash_cache src of
                  None \<Rightarrow> Inr (s1\<lparr>heap := (heap s1)(p := None)\<rparr>)
                | Some hk \<Rightarrow>
                    (case map_of (m_hash_cache s1) hk of
                       None \<Rightarrow> Inl DanglingPointer
                     | Some e \<Rightarrow>
                         if \<not> ref_count e > 0 then Inl AssertFailed
                         else Inr (s1\<lparr>m_hash_cache :=
                                        AList.update hk (e\<lparr>ref_count := ref_count e - 1\<rparr>) (m_hash_cache s1),
                                      heap := (heap s1)(p := None)\<rparr>)))))"

text \<open>The loop reads \<open>n->next\<close> before it unlinks the nodes of \<open>n->ref\<close>, and unlinking
  a Source's nodes leaves the links of the other Sources' nodes after it in place: the
  loop visits the nodes the list had on entry, in order.\<close>

fun invalidate_nodes :: "SourceList \<Rightarrow> GPUTextureCache \<Rightarrow> error + GPUTextureCache" where
  "invalidate_nodes [] s = Inr s"
| "invalidate_nodes (n # ns) s =
     (case invalidate_source (fst n) s of
        Inl e \<Rightarrow> Inl e
      | Inr s' \<Rightarrow> invalidate_nodes ns s')"

definition InvalidatePage :: "u32 \<Rightarrow> GPUTextureCache \<Rightarrow> error + GPUTextureCache" where
  "InvalidatePage pn s =
     (if \<not> pn < NUM_PAGES then Inl AssertFailed
      else case invalidate_nodes (m_page_sources s (unat pn)) s of
             Inl e \<Rightarrow> Inl e
           | Inr s' \<Rightarrow> Inr (s'\<lparr>m_page_sources := (m_page_sources s')(unat pn := [])\<rparr>))"

fun for_pages :: "(u32 \<Rightarrow> 'st \<Rightarrow> error + 'st) \<Rightarrow> u32 list \<Rightarrow> 'st \<Rightarrow> error + 'st" where
  "for_pages f [] s = Inr s"
| "for_pages f (pn # pns) s =
     (case f pn s of Inl e \<Rightarrow> Inl e | Inr s' \<Rightarrow> for_pages f pns s')"

definition InvalidatePages :: "u32 \<Rightarrow> u32 \<Rightarrow> u32 \<Rightarrow> u32 \<Rightarrow> GPUTextureCache \<Rightarrow> error + GPUTextureCache" where
  "InvalidatePages x y width height s =
     (case LoopPages x y width height of
        Inl e \<Rightarrow> Inl e
      | Inr pns \<Rightarrow> for_pages InvalidatePage pns s)"

definition InvalidatePages_rect :: "Rectangle \<Rightarrow> GPUTextureCache \<Rightarrow> error + GPUTextureCache" where
  "InvalidatePages_rect rc s = InvalidatePages (left rc) (top rc) (GetWidth rc) (GetHeight rc) s"

definition UpdateDrawnRect :: "Rectangle \<Rightarrow> GPUTextureCache \<Rightarrow> GPUTextureCache" where
  "UpdateDrawnRect rect s =
     (if left rect \<ge> left (m_drawn_rect s) \<and> right rect \<le> right (m_drawn_rect s) \<and>
         top rect \<ge> top (m_drawn_rect s) \<and> bottom rect \<le> bottom (m_drawn_rect s)
      then s
      else s\<lparr>m_drawn_rect := Include (m_drawn_rect s) rect\<rparr>)"

definition InvalidateFromWrite :: "Rectangle \<Rightarrow> GPUTextureCache \<Rightarrow> error + GPUTextureCache" where
  "InvalidateFromWrite rect s =
     (if Intersects (m_drawn_rect s) rect
      then let s1 = s\<lparr>m_drawn_rect := Include (m_drawn_rect s) rect\<rparr>
           in InvalidatePages_rect (m_drawn_rect s1) s1
      else InvalidatePages_rect rect s)"

fun Clear_loop :: "nat \<Rightarrow> nat \<Rightarrow> GPUTextureCache \<Rightarrow> error + GPUTextureCache" where
  "Clear_loop i 0 s = Inr s"
| "Clear_loop i (Suc n) s =
     (case InvalidatePage (of_nat i) s of Inl e \<Rightarrow> Inl e | Inr s' \<Rightarrow> Clear_loop (Suc i) n s')"

definition Clear :: "GPUTextureCache \<Rightarrow> error + GPUTextureCache" where
  "Clear s = Clear_loop 0 (unat NUM_PAGES) s"

section \<open>Collaborators\<close>

text \<open>
  What the cache consumes from outside the sources is taken as a parameter:
  the VRAM array \<^verbatim>\<open>g_vram\<close> and the colour conversion
  \<^verbatim>\<open>VRAMRGBA5551ToRGBA8888\<close> (gpu.h, gpu_types.h), the hash function of
  xxhash.h as a function of the sequence of cells it is fed, and the accessors
  \<^verbatim>\<open>GetXBase\<close> and \<^verbatim>\<open>GetYBase\<close> of the palette register, as functions of
  its \<open>bits\<close>.
\<close>

record Env =
  g_vram :: "u16 list"
  VRAMRGBA5551ToRGBA8888 :: "u16 \<Rightarrow> u32"
  XXH3_64bits :: "u16 list \<Rightarrow> u64"
  GetXBase :: "u16 \<Rightarrow> u32"
  GetYBase :: "u16 \<Rightarrow> u32"

text \<open>Modelled from the spec: \<^verbatim>\<open>GPUTexturePaletteReg::GetWidth(mode)\<close> (gpu_types.h) is
  not among the sources; it is 16 for the 4-bit mode and 256 for the 8-bit mode, the number
  of VRAM cells read as the CLUT. It is only called for these two modes.\<close>

fun PaletteGetWidth :: "GPUTextureMode \<Rightarrow> u32" where
  "PaletteGetWidth Palette4Bit = 16"
| "PaletteGetWidth Palette8Bit = 256"
| "PaletteGetWidth _ = 0"

text \<open>A read of \<^verbatim>\<open>g_vram\<close> through a pointer: the pointer is the index of the cell.\<close>

definition vram_read :: "Env \<Rightarrow> nat \<Rightarrow> error + u16" where
  "vram_read env i = (if i < length (g_vram env) then Inr (g_vram env ! i) else Inl OutOfBounds)"

text \<open>A counted loop whose body can fail: the results of the body, in order, or the
  first error.\<close>

fun mapE :: "('a \<Rightarrow> error + 'b) \<Rightarrow> 'a list \<Rightarrow> error + 'b list" where
  "mapE f [] = Inr []"
| "mapE f (x # xs) =
     (case f x of
        Inl e \<Rightarrow> Inl e
      | Inr y \<Rightarrow> (case mapE f xs of Inl e \<Rightarrow> Inl e | Inr ys \<Rightarrow> Inr (y # ys)))"

definition VRAMPagePointer :: "u32 \<Rightarrow> nat" where
  "VRAMPagePointer pn =
     (let start_y = PageStartY pn; start_x = PageStartX pn
      in unat (start_y * VRAM_WIDTH + start_x))"

definition PalettePointer :: "Env \<Rightarrow> u16 \<Rightarrow> nat" where
  "PalettePointer env pal = unat (GetYBase env pal * VRAM_WIDTH + GetXBase env pal)"

section \<open>Decoders\<close>

text \<open>The destination is the list of its \<open>TEXTURE_PAGE_HEIGHT\<close> rows; \<open>dest_stride\<close>
  only says where in memory a row starts. Row \<open>y\<close> reads from \<open>pagep + y * VRAM_WIDTH\<close>, where \<open>pagep\<close>
  is the pointer the source calls \<open>page\<close>.\<close>

definition DecodeTexture4 :: "Env \<Rightarrow> nat \<Rightarrow> nat \<Rightarrow> error + u32 list list" where
  "DecodeTexture4 env pagep pal =
     mapE (\<lambda>y.
       map_sum id concat
         (mapE (\<lambda>x.
            case vram_read env (pagep + y * unat VRAM_WIDTH + x) of
              Inl e \<Rightarrow> Inl e
            | Inr c \<Rightarrow>
                let pp = (ucast c :: u32)
                in mapE (\<lambda>i. map_sum id (VRAMRGBA5551ToRGBA8888 env) (vram_read env (pal + unat i)))
                     [pp AND 0x0F, (drop_bit 4 pp) AND 0x0F, (drop_bit 8 pp) AND 0x0F, drop_bit 12 pp])
          [0 ..< unat TEXTURE_PAGE_WIDTH div 4]))
       [0 ..< unat TEXTURE_PAGE_HEIGHT]"

definition DecodeTexture8 :: "Env \<Rightarrow> nat \<Rightarrow> nat \<Rightarrow> error + u32 list list" where
  "DecodeTexture8 env pagep pal =
     mapE (\<lambda>y.
       map_sum id concat
         (mapE (\<lambda>x.
            case vram_read env (pagep + y * unat VRAM_WIDTH + x) of
              Inl e \<Rightarrow> Inl e
            | Inr c \<Rightarrow>
                let pp = (ucast c :: u32)
                in mapE (\<lambda>i. map_sum id (VRAMRGBA5551ToRGBA8888 env) (vram_read env (pal + unat i)))
                     [pp AND 0xFF, drop_bit 8 pp])
          [0 ..< unat TEXTURE_PAGE_WIDTH div 2]))
       [0 ..< unat TEXTURE_PAGE_HEIGHT]"

definition DecodeTexture16 :: "Env \<Rightarrow> nat \<Rightarrow> error + u32 list list" where
  "DecodeTexture16 env pagep =
     mapE (\<lambda>y.
       mapE (\<lambda>x. map_sum id (VRAMRGBA5551ToRGBA8888 env)
                    (vram_read env (pagep + y * unat VRAM_WIDTH + x)))
         [0 ..< unat TEXTURE_PAGE_WIDTH])
       [0 ..< unat TEXTURE_PAGE_HEIGHT]"

definition DecodeTexture :: "Env \<Rightarrow> u8 \<Rightarrow> u16 \<Rightarrow> GPUTextureMode \<Rightarrow> error + u32 list list" where
  "DecodeTexture env pg pal md =
     (let page_ptr = VRAMPagePointer (ucast pg)
      in case md of
           Palette4Bit \<Rightarrow> DecodeTexture4 env page_ptr (PalettePointer env pal)
         | Palette8Bit \<Rightarrow> DecodeTexture8 env page_ptr (PalettePointer env pal)
         | Direct16Bit \<Rightarrow> DecodeTexture16 env page_ptr
         | Reserved_Direct16Bit \<Rightarrow> DecodeTexture16 env page_ptr)"

text \<open>The second \<^verbatim>\<open>DecodeTexture\<close> decodes into the mapped texture, or into the staging
  buffer that is then uploaded with \<^verbatim>\<open>Update\<close>: either way the texture holds the decoded
  texels afterwards.\<close>

definition DecodeTexture_into :: "Env \<Rightarrow> u8 \<Rightarrow> u16 \<Rightarrow> GPUTextureMode \<Rightarrow> GPUTexture \<Rightarrow> error + GPUTexture" where
  "DecodeTexture_into env pg pal md tex =
     map_sum id (\<lambda>px. tex\<lparr>texels := px\<rparr>) (DecodeTexture env pg pal md)"

definition WidthForMode :: "GPUTextureMode \<Rightarrow> u32" where
  "WidthForMode md =
     drop_bit (if mode_u8 md < mode_u8 Direct16Bit then unat (2 - mode_u8 md) else 0)
       TEXTURE_PAGE_WIDTH"

section \<open>Hashing\<close>

text \<open>\<open>hash_rows\<close> is the loop of \<^verbatim>\<open>HashPage\<close>: \<open>VRAM_PAGE_HEIGHT\<close> updates of the
  streaming hash, each with \<open>n\<close> cells starting at \<open>page_ptr\<close>, which then advances by
  \<open>VRAM_WIDTH\<close>; the digest is the hash of all the cells fed, in order.\<close>

definition hash_rows :: "Env \<Rightarrow> nat \<Rightarrow> nat \<Rightarrow> error + u64" where
  "hash_rows env page_ptr n =
     map_sum id (\<lambda>rows. XXH3_64bits env (concat rows))
       (mapE (\<lambda>y. mapE (vram_read env)
                     [page_ptr + y * unat VRAM_WIDTH ..< page_ptr + y * unat VRAM_WIDTH + n])
          [0 ..< unat VRAM_PAGE_HEIGHT])"

definition HashPage :: "Env \<Rightarrow> u8 \<Rightarrow> GPUTextureMode \<Rightarrow> error + u64" where
  "HashPage env pg md =
     (let page_ptr = VRAMPagePointer (ucast pg)
      in case md of
           Palette4Bit \<Rightarrow> hash_rows env page_ptr (unat VRAM_PAGE_WIDTH)
         | Palette8Bit \<Rightarrow> hash_rows env page_ptr (unat VRAM_PAGE_WIDTH * 2)
         | Direct16Bit \<Rightarrow> hash_rows env page_ptr (unat VRAM_PAGE_WIDTH * 4)
         | Reserved_Direct16Bit \<Rightarrow> Inl Unreachable)"

definition HashPalette :: "Env \<Rightarrow> u16 \<Rightarrow> GPUTextureMode \<Rightarrow> error + u64" where
  "HashPalette env pal md =
     (let base = PalettePointer env pal
      in case md of
           Palette4Bit \<Rightarrow> map_sum id (XXH3_64bits env) (mapE (vram_read env) [base ..< base + 16])
         | Palette8Bit \<Rightarrow> map_sum id (XXH3_64bits env) (mapE (vram_read env) [base ..< base + 256])
         | Direct16Bit \<Rightarrow> Inl Unreachable
         | Reserved_Direct16Bit \<Rightarrow> Inl Unreachable)"

section \<open>Hash cache lookup\<close>

text \<open>\<open>fetched\<close> is what \<^verbatim>\<open>g_gpu_device->FetchTexture\<close> returns when it is called:
  a texture, or \<open>None\<close> for the null handle. The result is the pointer to the entry
  (\<open>None\<close> for \<^verbatim>\<open>nullptr\<close>) and the cache afterwards. Where an unordered map
  puts a new entry in its iteration order is unspecified; the model puts it last.\<close>

definition LookupHashCache ::
  "Env \<Rightarrow> GPUTexture option \<Rightarrow> SourceKey \<Rightarrow> GPUTextureCache
   \<Rightarrow> error + (HashCacheKey option \<times> GPUTextureCache)" where
  "LookupHashCache env fetched k s =
     (case HashPage env (page k) (mode k) of
        Inl e \<Rightarrow> Inl e
      | Inr tex_hash \<Rightarrow>
          (case (if mode_u8 (mode k) < mode_u8 Direct16Bit
                 then HashPalette env (palette k) (mode k) else Inr 0) of
             Inl e \<Rightarrow> Inl e
           | Inr pal_hash \<Rightarrow>
               let hkey = \<lparr>texture_hash = tex_hash, palette_hash = pal_hash,
                            hmode = ucast (mode_u8 (mode k))\<rparr>
               in (case map_of (m_hash_cache s) hkey of
                     Some _ \<Rightarrow> Inr (Some hkey, s)
                   | None \<Rightarrow>
                       (case fetched of
                          None \<Rightarrow> Inr (None, s)
                        | Some tex \<Rightarrow>
                            (case DecodeTexture_into env (page k) (palette k) (mode k) tex of
                               Inl e \<Rightarrow> Inl e
                             | Inr tex' \<Rightarrow>
                                 Inr (Some hkey,
                                      s\<lparr>m_hash_cache := m_hash_cache s @
                                           [(hkey, \<lparr>texture = tex', ref_count = 0, age = 0\<rparr>)]\<rparr>))))))"

section \<open>Source creation and lookup\<close>

text \<open>
  The two lambdas of \<^verbatim>\<open>CreateSource\<close>. They work on the cache and on the local array
  \<open>page_refns\<close> (its first \<open>num_page_refs\<close> cells are the ones written so far); \<open>p\<close>
  is the new Source. \<open>link\<close> is \<open>ListPrepend\<close> or \<open>ListAppend\<close>.
\<close>

definition add_ref_with ::
  "(SourceList \<Rightarrow> node_ptr \<Rightarrow> SourceList) \<Rightarrow> src_ptr \<Rightarrow> u32
   \<Rightarrow> GPUTextureCache \<times> u32 list \<Rightarrow> error + (GPUTextureCache \<times> u32 list)" where
  "add_ref_with link p pn st =
     (case st of (s, page_refns) \<Rightarrow>
        (case heap s p of
           None \<Rightarrow> Inl DanglingPointer
         | Some src \<Rightarrow>
             if pn \<in> set (take (unat (num_page_refs src)) page_refns) then Inr (s, page_refns)
             else
               let ri = unat (num_page_refs src)
               in if \<not> ri < MAX_PAGE_REFS_PER_SOURCE then Inl OutOfBounds
                  else if \<not> pn < NUM_PAGES then Inl OutOfBounds
                  else
                    let src' = src\<lparr>num_page_refs := num_page_refs src + 1,
                                   page_refs := take ri (page_refs src) @ [pn]\<rparr>
                    in Inr (s\<lparr>heap := (heap s)(p \<mapsto> src'),
                              m_page_sources := (m_page_sources s)
                                (unat pn := link (m_page_sources s (unat pn)) (p, ri))\<rparr>,
                            take ri page_refns @ [pn])))"

definition add_page_ref ::
  "src_ptr \<Rightarrow> u32 \<Rightarrow> GPUTextureCache \<times> u32 list \<Rightarrow> error + (GPUTextureCache \<times> u32 list)" where
  "add_page_ref = add_ref_with ListPrepend"

definition add_page_ref_back ::
  "src_ptr \<Rightarrow> u32 \<Rightarrow> GPUTextureCache \<times> u32 list \<Rightarrow> error + (GPUTextureCache \<times> u32 list)" where
  "add_page_ref_back = add_ref_with ListAppend"

definition CreateSource ::
  "Env \<Rightarrow> GPUTexture option \<Rightarrow> SourceKey \<Rightarrow> GPUTextureCache
   \<Rightarrow> error + (src_ptr option \<times> GPUTextureCache)" where
  "CreateSource env fetched k s =
     (case LookupHashCache env fetched k s of
        Inl e \<Rightarrow> Inl e
      | Inr (None, s1) \<Rightarrow> Inr (None, s1)
      | Inr (Some hk, s1) \<Rightarrow>
          (case map_of (m_hash_cache s1) hk of
             None \<Rightarrow> Inl DanglingPointer
           | Some hcentry \<Rightarrow>
               let s2 = s1\<lparr>m_hash_cache :=
                             AList.update hk (hcentry\<lparr>ref_count := ref_count hcentry + 1, age := 0\<rparr>)
                               (m_hash_cache s1)\<rparr>;
                   p = next_ptr s2;
                   src = \<lparr>key = k, num_page_refs = 0, src_texture = handle (texture hcentry),
                          from_hash_cache = Some hk, page_refs = []\<rparr>;
                   s3 = s2\<lparr>heap := (heap s2)(p \<mapsto> src), next_ptr := Suc p\<rparr>
               in (case LoopPages (PageStartX (ucast (page k))) (PageStartY (ucast (page k)))
                          (WidthForMode (mode k)) TEXTURE_PAGE_HEIGHT of
                     Inl e \<Rightarrow> Inl e
                   | Inr pns \<Rightarrow>
                       (case for_pages (add_page_ref p) pns (s3, []) of
                          Inl e \<Rightarrow> Inl e
                        | Inr st \<Rightarrow>
                            if mode_u8 (mode k) < mode_u8 Direct16Bit
                            then (case LoopPages (GetXBase env (palette k)) (GetYBase env (palette k))
                                         (PaletteGetWidth (mode k)) 1 of
                                    Inl e \<Rightarrow> Inl e
                                  | Inr cpns \<Rightarrow>
                                      (case for_pages (add_page_ref_back p) cpns st of
                                         Inl e \<Rightarrow> Inl e
                                       | Inr st' \<Rightarrow> Inr (Some p, fst st')))
                            else Inr (Some p, fst st)))))"

text \<open>The walk of \<^verbatim>\<open>LookupSource\<close> over the list of the primary page: the first node
  whose Source has the key.\<close>

fun find_node :: "(src_ptr \<Rightarrow> Source option) \<Rightarrow> SourceKey \<Rightarrow> SourceList \<Rightarrow> error + node_ptr option" where
  "find_node h k [] = Inr None"
| "find_node h k (n # ns) =
     (case h (fst n) of
        None \<Rightarrow> Inl DanglingPointer
      | Some src \<Rightarrow> if key src = k then Inr (Some n) else find_node h k ns)"

definition LookupSource ::
  "Env \<Rightarrow> GPUTexture option \<Rightarrow> SourceKey \<Rightarrow> GPUTextureCache
   \<Rightarrow> error + (src_ptr option \<times> GPUTextureCache)" where
  "LookupSource env fetched k s =
     (if \<not> (ucast (page k) :: u32) < NUM_PAGES then Inl OutOfBounds
      else
        let lst = m_page_sources s (unat (page k))
        in (case find_node (heap s) k lst of
              Inl e \<Rightarrow> Inl e
            | Inr (Some n) \<Rightarrow>
                (case ListMoveToFront lst n of
                   Inl e \<Rightarrow> Inl e
                 | Inr lst' \<Rightarrow>
                     Inr (Some (fst n),
                          s\<lparr>m_page_sources := (m_page_sources s)(unat (page k) := lst')\<rparr>))
            | Inr None \<Rightarrow> CreateSource env fetched k s))"

section \<open>Aging\<close>

definition MAX_HASH_CACHE_AGE :: u32 where "MAX_HASH_CACHE_AGE = 600"
definition MAX_HASH_CACHE_SIZE :: nat where "MAX_HASH_CACHE_SIZE = 200"

text \<open>\<^verbatim>\<open>RemoveFromHashCache(it)\<close>: the texture of the entry goes back to the device and
  the entry leaves the table. The state of the sweep is the table, the textures recycled
  so far, the flag \<open>might_need_cache_purge\<close> and the purge list; an iterator is the key
  of its entry.\<close>

definition RemoveFromHashCache ::
  "HashCacheKey \<Rightarrow> (HashCacheKey \<times> HashCacheEntry) list \<times> GPUTexture list
   \<Rightarrow> (HashCacheKey \<times> HashCacheEntry) list \<times> GPUTexture list" where
  "RemoveFromHashCache it tr =
     (case tr of (t, rc) \<Rightarrow>
        (case map_of t it of
           None \<Rightarrow> (t, rc)
         | Some e \<Rightarrow> (AList.delete it t, rc @ [texture e])))"

text \<open>The first loop of \<^verbatim>\<open>AgeHashCache\<close>, over the iterators of the table in iteration
  order. Erasing an entry leaves the iterators of the other entries valid.\<close>

fun age_loop ::
  "HashCacheKey list \<Rightarrow> (HashCacheKey \<times> HashCacheEntry) list \<times> GPUTexture list
   \<Rightarrow> bool \<Rightarrow> (HashCacheKey \<times> u32) list
   \<Rightarrow> ((HashCacheKey \<times> HashCacheEntry) list \<times> GPUTexture list) \<times> bool \<times> (HashCacheKey \<times> u32) list" where
  "age_loop [] tr might purge_list = (tr, might, purge_list)"
| "age_loop (it # its) tr might purge_list =
     (case map_of (fst tr) it of
        None \<Rightarrow> age_loop its tr might purge_list
      | Some e \<Rightarrow>
          if ref_count e > 0 then age_loop its tr might purge_list
          else
            let e' = e\<lparr>age := age e + 1\<rparr>;
                tr' = (AList.update it e' (fst tr), snd tr)
            in if age e' > MAX_HASH_CACHE_AGE
               then age_loop its (RemoveFromHashCache it tr') might purge_list
               else if might
               then let might' = (length (fst tr') > MAX_HASH_CACHE_SIZE)
                    in age_loop its tr' might'
                         (if might' then purge_list @ [(it, age e')] else purge_list)
               else age_loop its tr' might purge_list)"

text \<open>The purge list is sorted with the comparison \<open>lhs.second > rhs.second\<close> on the
  ages as signed 32-bit values: greatest age first. \<^verbatim>\<open>std::sort\<close> may order entries
  of equal age either way; the model keeps them in the order they were pushed.\<close>

definition sort_purge_list :: "(HashCacheKey \<times> u32) list \<Rightarrow> (HashCacheKey \<times> u32) list" where
  "sort_purge_list pl = sort_key (\<lambda>x. - sint (snd x)) pl"

fun purge_loop ::
  "nat \<Rightarrow> (HashCacheKey \<times> u32) list
   \<Rightarrow> (HashCacheKey \<times> HashCacheEntry) list \<times> GPUTexture list
   \<Rightarrow> (HashCacheKey \<times> HashCacheEntry) list \<times> GPUTexture list" where
  "purge_loop 0 pl tr = tr"
| "purge_loop (Suc n) [] tr = tr"
| "purge_loop (Suc n) (x # pl) tr = purge_loop n pl (RemoveFromHashCache (fst x) tr)"

text \<open>The member \<open>s_hash_cache_purge_list\<close> is cleared on entry whenever it is going
  to be used, so the sweep starts from the empty list.
  \<open>entries_to_purge\<close> is the minimum of two values cast to 32 bits: the
  difference \<open>size() - MAX_HASH_CACHE_SIZE\<close>, computed in the 64-bit unsigned
  \<^verbatim>\<open>size_t\<close>, and the size of the purge list.\<close>

definition entries_to_purge :: "nat \<Rightarrow> nat \<Rightarrow> u32" where
  "entries_to_purge table_size purge_size =
     min (ucast ((of_nat table_size :: u64) - of_nat MAX_HASH_CACHE_SIZE) :: u32)
         (of_nat purge_size :: u32)"

definition AgeHashCache :: "GPUTextureCache \<Rightarrow> GPUTextureCache" where
  "AgeHashCache s =
     (let might0 = (length (m_hash_cache s) > MAX_HASH_CACHE_SIZE);
          r = age_loop (map fst (m_hash_cache s)) (m_hash_cache s, recycled s) might0 [];
          tr = fst r; might = fst (snd r); purge_list = snd (snd r);
          tr' = (if might
                 then purge_loop (unat (entries_to_purge (length (fst tr)) (length purge_list)))
                        (sort_purge_list purge_list) tr
                 else tr)
      in s\<lparr>m_hash_cache := fst tr', recycled := snd tr'\<rparr>)"

section \<open>Constructed caches and sequences of calls\<close>

text \<open>The cache as the constructor leaves it: every page list empty and the table
  empty. \<open>drawn\<close> is the default-constructed \<open>m_drawn_rect\<close>.\<close>

definition new_cache :: "Rectangle \<Rightarrow> GPUTextureCache" where
  "new_cache drawn =
     \<lparr>m_drawn_rect = drawn, m_hash_cache = [], m_page_sources = (\<lambda>_. []),
      heap = Map.empty, next_ptr = 0, recycled = []\<rparr>"

text \<open>A table of 201 unreferenced entries: one released in the current frame (age 0),
  which the sweep visits first, and 200 that have not been used for 600 frames.\<close>

definition aged_table :: "(HashCacheKey \<times> HashCacheEntry) list" where
  "aged_table =
     (\<lparr>texture_hash = 0, palette_hash = 0, hmode = 0\<rparr>,
      \<lparr>texture = \<lparr>handle = 0, texels = []\<rparr>, ref_count = 0, age = 0\<rparr>)
     # map (\<lambda>i. (\<lparr>texture_hash = of_nat i, palette_hash = 0, hmode = 2\<rparr>,
                  \<lparr>texture = \<lparr>handle = i, texels = []\<rparr>, ref_count = 0, age = 600\<rparr>))
         [1 ..< 201]"

definition rect_contains :: "Rectangle \<Rightarrow> Rectangle \<Rightarrow> bool" where
  "rect_contains outer inner \<longleftrightarrow>
     left outer \<le> left inner \<and> top outer \<le> top inner \<and>
     right inner \<le> right outer \<and> bottom inner \<le> bottom outer"

text \<open>A history of draw-target updates and VRAM writes, and the drawn rect it should
  leave according to \<open>UpdateDrawnRect\<close> and \<open>InvalidateFromWrite\<close>.\<close>

datatype cache_op = Draw Rectangle | Write Rectangle

fun run_op :: "cache_op \<Rightarrow> GPUTextureCache \<Rightarrow> error + GPUTextureCache" where
  "run_op (Draw rect) s = Inr (UpdateDrawnRect rect s)"
| "run_op (Write rect) s = InvalidateFromWrite rect s"

fun run_ops :: "cache_op list \<Rightarrow> GPUTextureCache \<Rightarrow> error + GPUTextureCache" where
  "run_ops [] s = Inr s"
| "run_ops (c # cs) s = (case run_op c s of Inl e \<Rightarrow> Inl e | Inr s' \<Rightarrow> run_ops cs s')"

fun drawn_step :: "Rectangle \<Rightarrow> cache_op \<Rightarrow> Rectangle" where
  "drawn_step d (Draw rect) = Include d rect"
| "drawn_step d (Write rect) = (if Intersects d rect then Include d rect else d)"

section \<open>The reference mapping of the decoders\<close>

text \<open>
  The mapping the specification gives for the texel at row \<open>y\<close>, column \<open>x\<close> of the
  output, for a page starting at cell \<open>pagep\<close> of VRAM and a CLUT starting at cell
  \<open>pal\<close>. 16-bit direct: the conversion of the cell \<open>y * VRAM_WIDTH + x\<close> of the page.
  4-bit: cell \<open>x div 4\<close> of the row yields four consecutive texels from its nibbles, low
  to high; the nibble indexes the CLUT and the entry is converted. 8-bit: cell
  \<open>x div 2\<close> yields two texels from its low, then its high byte.
\<close>

definition texel16_spec :: "Env \<Rightarrow> nat \<Rightarrow> nat \<Rightarrow> nat \<Rightarrow> u32" where
  "texel16_spec env pagep y x =
     VRAMRGBA5551ToRGBA8888 env (g_vram env ! (pagep + y * unat VRAM_WIDTH + x))"

definition texel4_spec :: "Env \<Rightarrow> nat \<Rightarrow> nat \<Rightarrow> nat \<Rightarrow> nat \<Rightarrow> u32" where
  "texel4_spec env pagep pal y x =
     (let cell = (ucast (g_vram env ! (pagep + y * unat VRAM_WIDTH + x div 4)) :: u32);
          nibble = drop_bit (4 * (x mod 4)) cell AND 0x0F
      in VRAMRGBA5551ToRGBA8888 env (g_vram env ! (pal + unat nibble)))"

definition texel8_spec :: "Env \<Rightarrow> nat \<Rightarrow> nat \<Rightarrow> nat \<Rightarrow> nat \<Rightarrow> u32" where
  "texel8_spec env pagep pal y x =
     (let cell = (ucast (g_vram env ! (pagep + y * unat VRAM_WIDTH + x div 2)) :: u32);
          byte = drop_bit (8 * (x mod 2)) cell AND 0xFF
      in VRAMRGBA5551ToRGBA8888 env (g_vram env ! (pal + unat byte)))"

text \<open>The cells a decoder reads lie in \<^verbatim>\<open>g_vram\<close>: the last row of a footprint
  \<open>n\<close> cells wide ends inside the array, and so does a CLUT of \<open>n\<close> cells.\<close>

definition footprint_in_vram :: "Env \<Rightarrow> nat \<Rightarrow> nat \<Rightarrow> bool" where
  "footprint_in_vram env pagep n \<longleftrightarrow>
     pagep + (unat TEXTURE_PAGE_HEIGHT - 1) * unat VRAM_WIDTH + n \<le> length (g_vram env)"

definition clut_in_vram :: "Env \<Rightarrow> nat \<Rightarrow> nat \<Rightarrow> bool" where
  "clut_in_vram env pal n \<longleftrightarrow> pal + n \<le> length (g_vram env)"

section \<open>An instance of the collaborators\<close>

text \<open>A VRAM of \<open>VRAM_WIDTH * VRAM_HEIGHT\<close> cells all holding \<open>v\<close>, with some
  conversion and hash function, and a palette register holding the CLUT column in
  units of 16 cells in its bits 0 to 5 and the CLUT row in its bits 6 to 14.\<close>

definition flat_env :: "u16 \<Rightarrow> Env" where
  "flat_env v =
     \<lparr>g_vram = replicate (unat VRAM_WIDTH * unat VRAM_HEIGHT) v,
      VRAMRGBA5551ToRGBA8888 = ucast,
      XXH3_64bits = (\<lambda>cells. of_nat (length cells)),
      GetXBase = (\<lambda>bits. (ucast bits AND 0x3F) * 16),
      GetYBase = (\<lambda>bits. drop_bit 6 (ucast bits) AND 0x1FF)\<rparr>"

section \<open>Invariant of source creation\<close>


section \<open>Entries and textures across a sweep\<close>



section \<open>Constants\<close>

text \<open>The loops of \<open>LoopPages\<close> are unfolded on demand only.\<close>

declare LoopPages_x.simps [simp del] LoopPages_y.simps [simp del]

lemmas LoopPages_simps = LoopPages_def LoopPages_x.simps LoopPages_y.simps

lemmas vram_consts =
  VRAM_WIDTH_def VRAM_HEIGHT_def TEXTURE_PAGE_WIDTH_def TEXTURE_PAGE_HEIGHT_def
  VRAM_PAGE_WIDTH_def VRAM_PAGE_HEIGHT_def VRAM_PAGES_WIDE_def VRAM_PAGES_HIGH_def
  NUM_PAGES_def

section \<open>Page enumeration of a rectangle\<close>

text \<open>
  Claim C1. \<open>InvalidatePages(rect)\<close> is to invalidate every page whose rectangle
  intersects \<open>rect\<close>: every page column from \<open>rect.left div 64\<close> through
  \<open>(rect.right - 1) div 64\<close>, in each intersected page row. The write rectangle
  \<open>(0, 0) .. (128, 1)\<close> covers the page columns 0 and 1. On it \<open>LoopPages\<close> hands
  page 0 to the callback twice and page 1 never (the inner loop increments
  \<open>y_page_number\<close> and passes \<open>page_number\<close>), so a Source registered on page 1
  survives the invalidation: it is still on the list of page 1 and still live.
\<close>

theorem C1_InvalidatePages_misses_page_column:
  "LoopPages 0 0 128 1 = Inr [0, 0] \<and>
   (\<exists>s'. InvalidatePages_rect \<lparr>left = 0, top = 0, right = 128, bottom = 1\<rparr>
            \<lparr>m_drawn_rect = \<lparr>left = 0, top = 0, right = 0, bottom = 0\<rparr>,
             m_hash_cache = [],
             m_page_sources = (\<lambda>_. [])(1 := [(0, 0)]),
             heap = Map.empty(0 \<mapsto>
               \<lparr>key = \<lparr>page = 1, mode = Palette4Bit, palette = 0\<rparr>, num_page_refs = 1,
                src_texture = 0, from_hash_cache = None, page_refs = [1]\<rparr>),
             next_ptr = 1, recycled = []\<rparr> = Inr s' \<and>
         m_page_sources s' 1 = [(0, 0)] \<and> heap s' 0 \<noteq> None)"
  by (simp add: LoopPages_simps vram_consts PageIndex_def InvalidatePages_rect_def
      InvalidatePages_def GetWidth_def GetHeight_def InvalidatePage_def)

section \<open>The drawn rect\<close>

text \<open>Invalidation works on the page lists, the heap and the reference counts; it
  leaves \<open>m_drawn_rect\<close> alone.\<close>

lemma ListUnlink_drawn:
  "ListUnlink n l s = Inr s' \<Longrightarrow> m_drawn_rect s' = m_drawn_rect s"
  by (auto simp: ListUnlink_def split: if_splits)

lemma unlink_refs_drawn:
  "unlink_refs p refs i n s = Inr s' \<Longrightarrow> m_drawn_rect s' = m_drawn_rect s"
proof (induction n arbitrary: i s)
  case 0
  then show ?case by simp
next
  case (Suc n)
  then show ?case
    by (auto split: if_splits sum.splits dest: ListUnlink_drawn)
qed

lemma invalidate_source_drawn:
  "invalidate_source p s = Inr s' \<Longrightarrow> m_drawn_rect s' = m_drawn_rect s"
  by (auto simp: invalidate_source_def split: option.splits sum.splits if_splits
      dest: unlink_refs_drawn)

lemma invalidate_nodes_drawn:
  "invalidate_nodes ns s = Inr s' \<Longrightarrow> m_drawn_rect s' = m_drawn_rect s"
  by (induction ns arbitrary: s) (auto split: sum.splits dest: invalidate_source_drawn)

lemma InvalidatePage_drawn:
  "InvalidatePage pn s = Inr s' \<Longrightarrow> m_drawn_rect s' = m_drawn_rect s"
  by (auto simp: InvalidatePage_def split: if_splits sum.splits dest: invalidate_nodes_drawn)

lemma for_pages_InvalidatePage_drawn:
  "for_pages InvalidatePage pns s = Inr s' \<Longrightarrow> m_drawn_rect s' = m_drawn_rect s"
  by (induction pns arbitrary: s) (auto split: sum.splits dest: InvalidatePage_drawn)

lemma InvalidatePages_rect_drawn:
  "InvalidatePages_rect rc s = Inr s' \<Longrightarrow> m_drawn_rect s' = m_drawn_rect s"
  by (auto simp: InvalidatePages_rect_def InvalidatePages_def split: sum.splits
      dest: for_pages_InvalidatePage_drawn)

lemma Include_contains: "rect_contains (Include a b) a \<and> rect_contains (Include a b) b"
  by (simp add: rect_contains_def Include_def)

lemma InvalidatePage_new_cache:
  "pn < NUM_PAGES \<Longrightarrow> InvalidatePage pn (new_cache d) = Inr (new_cache d)"
  by (auto simp: InvalidatePage_def new_cache_def)

lemma for_pages_new_cache:
  "\<forall>pn \<in> set pns. pn < NUM_PAGES \<Longrightarrow>
   for_pages InvalidatePage pns (new_cache d) = Inr (new_cache d)"
  by (induction pns) (simp_all add: InvalidatePage_new_cache)

lemma m_drawn_rect_new_cache: "m_drawn_rect (new_cache d) = d"
  by (simp add: new_cache_def)

lemma new_cache_drawn_update: "(new_cache d)\<lparr>m_drawn_rect := d'\<rparr> = new_cache d'"
  by (simp add: new_cache_def)

lemma UpdateDrawnRect_drawn:
  "m_drawn_rect (UpdateDrawnRect rect s) = Include (m_drawn_rect s) rect"
  by (cases "m_drawn_rect s") (auto simp: UpdateDrawnRect_def Include_def min_def max_def)

lemma UpdateDrawnRect_new_cache:
  "UpdateDrawnRect rect (new_cache d) = new_cache (Include d rect)"
proof -
  have "UpdateDrawnRect rect (new_cache d) = (new_cache d)\<lparr>m_drawn_rect := Include d rect\<rparr>"
    using UpdateDrawnRect_drawn [of rect "new_cache d"]
    by (auto simp: UpdateDrawnRect_def new_cache_def)
  then show ?thesis by (simp add: new_cache_def)
qed

lemma InvalidateFromWrite_drawn:
  "InvalidateFromWrite rect s = Inr s' \<Longrightarrow>
   m_drawn_rect s' = (if Intersects (m_drawn_rect s) rect then Include (m_drawn_rect s) rect
                      else m_drawn_rect s)"
  by (auto simp: InvalidateFromWrite_def Let_def dest: InvalidatePages_rect_drawn split: if_splits)

lemma run_op_drawn:
  "run_op c s = Inr s' \<Longrightarrow> m_drawn_rect s' = drawn_step (m_drawn_rect s) c"
  by (cases c) (auto simp: UpdateDrawnRect_drawn dest: InvalidateFromWrite_drawn)

lemma drawn_step_contains: "rect_contains (drawn_step d c) d"
  by (cases c) (auto simp: rect_contains_def Include_def)

lemma rect_contains_trans:
  "rect_contains a b \<Longrightarrow> rect_contains b c \<Longrightarrow> rect_contains a c"
  by (auto simp: rect_contains_def)

lemma foldl_drawn_step_contains: "rect_contains (foldl drawn_step d cs) d"
proof (induction cs arbitrary: d)
  case Nil
  show ?case by (simp add: rect_contains_def)
next
  case (Cons c cs)
  show ?case
    using Cons.IH [of "drawn_step d c"] drawn_step_contains [of d c]
    by (auto intro: rect_contains_trans)
qed

text \<open>
  Claim C4, as stated: the drawn rect is the union of the draw rectangles passed to
  \<open>UpdateDrawnRect\<close> since the last \<open>InvalidateFromWrite\<close>, which restarts the
  accumulation. It does not: after the draw \<open>(0,0)..(64,64)\<close>, a write elsewhere and
  the draw \<open>(128,0)..(192,64)\<close>, the drawn rect is \<open>(0,0)..(192,64)\<close>, not the second
  draw rectangle alone.
\<close>

theorem C4_drawn_rect_not_reset:
  "map_sum id m_drawn_rect
     (run_ops [Draw \<lparr>left = 0, top = 0, right = 64, bottom = 64\<rparr>,
               Write \<lparr>left = 512, top = 0, right = 576, bottom = 1\<rparr>,
               Draw \<lparr>left = 128, top = 0, right = 192, bottom = 64\<rparr>]
        (new_cache \<lparr>left = 0, top = 0, right = 0, bottom = 0\<rparr>))
   = Inr \<lparr>left = 0, top = 0, right = 192, bottom = 64\<rparr> \<and>
   \<lparr>left = 0, top = 0, right = 192, bottom = 64\<rparr>
     \<noteq> \<lparr>left = 128, top = 0, right = 192, bottom = (64 :: u32)\<rparr>"
  by (simp add: UpdateDrawnRect_new_cache Include_def InvalidateFromWrite_def Intersects_def
      InvalidatePages_rect_def InvalidatePages_def GetWidth_def GetHeight_def LoopPages_simps
      vram_consts PageIndex_def InvalidatePage_new_cache m_drawn_rect_new_cache
      new_cache_drawn_update)

text \<open>
  Claim C4, amended: no call resets the drawn rect. After any history of draws and
  writes that runs without error, it is the result of folding the history over the
  rect the history started from, where a draw takes the bounding union with the draw
  rectangle and a write takes the bounding union with the write rectangle when the two
  intersect and changes nothing otherwise; so it always contains the rect it started
  from.
\<close>

theorem C4_drawn_rect_accumulates:
  "run_ops cs s = Inr s' \<Longrightarrow>
   m_drawn_rect s' = foldl drawn_step (m_drawn_rect s) cs \<and>
   rect_contains (m_drawn_rect s') (m_drawn_rect s)"
proof (induction cs arbitrary: s)
  case Nil
  then show ?case by (simp add: rect_contains_def)
next
  case (Cons c cs)
  from Cons.prems obtain s1 where s1: "run_op c s = Inr s1" and rest: "run_ops cs s1 = Inr s'"
    by (auto split: sum.splits)
  from Cons.IH [OF rest] run_op_drawn [OF s1]
  have "m_drawn_rect s' = foldl drawn_step (m_drawn_rect s) (c # cs)" by simp
  then show ?case
    using foldl_drawn_step_contains [of "m_drawn_rect s" "c # cs"] by simp
qed

theorem C4_drawn_rect_accumulates_witness:
  "run_ops [Draw \<lparr>left = 0, top = 0, right = 64, bottom = 64\<rparr>,
            Write \<lparr>left = 32, top = 32, right = 96, bottom = 96\<rparr>]
     (new_cache \<lparr>left = 0, top = 0, right = 0, bottom = 0\<rparr>)
   = Inr (new_cache \<lparr>left = 0, top = 0, right = 96, bottom = 96\<rparr>) \<and>
   m_drawn_rect (new_cache \<lparr>left = 0, top = 0, right = 96, bottom = 96\<rparr>)
   = foldl drawn_step \<lparr>left = 0, top = 0, right = 0, bottom = 0\<rparr>
       [Draw \<lparr>left = 0, top = 0, right = 64, bottom = 64\<rparr>,
        Write \<lparr>left = 32, top = 32, right = 96, bottom = 96\<rparr>] \<and>
   rect_contains (m_drawn_rect (new_cache \<lparr>left = 0, top = 0, right = 96, bottom = 96\<rparr>))
     \<lparr>left = 0, top = 0, right = 0, bottom = 0\<rparr>"
proof -
  have run: "run_ops [Draw \<lparr>left = 0, top = 0, right = 64, bottom = 64\<rparr>,
                      Write \<lparr>left = 32, top = 32, right = 96, bottom = 96\<rparr>]
               (new_cache \<lparr>left = 0, top = 0, right = 0, bottom = 0\<rparr>)
             = Inr (new_cache \<lparr>left = 0, top = 0, right = 96, bottom = 96\<rparr>)"
    by (simp add: UpdateDrawnRect_new_cache Include_def InvalidateFromWrite_def Intersects_def
        InvalidatePages_rect_def InvalidatePages_def GetWidth_def GetHeight_def LoopPages_simps
        vram_consts PageIndex_def InvalidatePage_new_cache m_drawn_rect_new_cache
        new_cache_drawn_update)
  show ?thesis
    using run C4_drawn_rect_accumulates [OF run] by (simp add: m_drawn_rect_new_cache Include_def Intersects_def rect_contains_def)
qed

text \<open>
  Claim C5. When the drawn rect intersects the write, \<open>InvalidateFromWrite\<close> is to
  extend the drawn rect by the write and invalidate the pages of the whole extended
  rect, a superset of the write. With the drawn rect \<open>(0,0)..(128,128)\<close> and the write
  \<open>(64,64)..(192,192)\<close> the two intersect and the drawn rect becomes
  \<open>(0,0)..(192,192)\<close>, which covers the page columns 0, 1 and 2. \<open>LoopPages\<close> hands
  page 0 to \<open>InvalidatePage\<close> three times and the pages 1 and 2 never: a 16-bit Source
  on page 1, as \<open>CreateSource\<close> leaves it, survives the call, still on the list of
  page 1 and still counted by its hash-cache entry. The write alone lies in the page
  columns 1 and 2, and \<open>LoopPages\<close> of the write alone would have visited page 1.
\<close>

theorem C5_InvalidateFromWrite_misses_pages:
  "Intersects \<lparr>left = 0, top = 0, right = 128, bottom = 128\<rparr>
     \<lparr>left = 64, top = 64, right = 192, bottom = 192\<rparr> \<and>
   LoopPages 0 0 192 192 = Inr [0, 0, 0] \<and>
   LoopPages 64 64 128 128 = Inr [1, 1] \<and>
   (\<exists>s'. InvalidateFromWrite \<lparr>left = 64, top = 64, right = 192, bottom = 192\<rparr>
            ((new_cache \<lparr>left = 0, top = 0, right = 128, bottom = 128\<rparr>)
               \<lparr>m_hash_cache :=
                  [(\<lparr>texture_hash = 0, palette_hash = 0, hmode = 2\<rparr>,
                    \<lparr>texture = \<lparr>handle = 0, texels = []\<rparr>, ref_count = 1, age = 0\<rparr>)],
                m_page_sources := (\<lambda>_. [])(1 := [(0, 0)]),
                heap := [0 \<mapsto> \<lparr>key = \<lparr>page = 1, mode = Direct16Bit, palette = 0\<rparr>,
                               num_page_refs = 1, src_texture = 0,
                               from_hash_cache = Some \<lparr>texture_hash = 0, palette_hash = 0, hmode = 2\<rparr>,
                               page_refs = [1]\<rparr>],
                next_ptr := 1\<rparr>) = Inr s' \<and>
         m_drawn_rect s' = \<lparr>left = 0, top = 0, right = 192, bottom = 192\<rparr> \<and>
         m_page_sources s' 1 = [(0, 0)] \<and> heap s' 0 \<noteq> None \<and>
         map_option ref_count (map_of (m_hash_cache s')
           \<lparr>texture_hash = 0, palette_hash = 0, hmode = 2\<rparr>) = Some 1)"
  by (simp add: Intersects_def Include_def LoopPages_simps vram_consts PageIndex_def
      InvalidateFromWrite_def InvalidatePages_rect_def InvalidatePages_def GetWidth_def
      GetHeight_def InvalidatePage_def new_cache_def)

section \<open>Decoders\<close>

lemma mapE_Inr_map:
  "(\<And>x. x \<in> set xs \<Longrightarrow> f x = Inr (g x)) \<Longrightarrow> mapE f xs = Inr (map g xs)"
  by (induction xs) simp_all

lemma vram_read_in:
  "i < length (g_vram env) \<Longrightarrow> vram_read env i = Inr (g_vram env ! i)"
  by (simp add: vram_read_def)

lemma concat_nth_fixed:
  "(\<And>xs. xs \<in> set xss \<Longrightarrow> length xs = k) \<Longrightarrow> i < length xss \<Longrightarrow> j < k
   \<Longrightarrow> concat xss ! (i * k + j) = xss ! i ! j"
proof (induction xss arbitrary: i)
  case Nil
  then show ?case by simp
next
  case (Cons a xss)
  have la: "length a = k" using Cons.prems(1) by simp
  show ?case
  proof (cases i)
    case 0
    then show ?thesis using la Cons.prems(3) by (simp add: nth_append)
  next
    case (Suc i')
    have "concat xss ! (i' * k + j) = xss ! i' ! j"
      using Cons.IH [of i'] Cons.prems Suc by simp
    moreover have "\<not> (Suc i' * k + j < k)" by simp
    moreover have "Suc i' * k + j - k = i' * k + j" by simp
    ultimately show ?thesis using Suc la by (simp add: nth_append del: mult_Suc)
  qed
qed

lemma length_concat_fixed:
  "(\<And>xs. xs \<in> set xss \<Longrightarrow> length xs = k) \<Longrightarrow> length (concat xss) = length xss * k"
  by (induction xss) simp_all

lemma nib_lt: "unat ((w :: u32) AND 0x0F) < 16"
proof -
  have "w AND 0x0F \<le> 0x0F" by (rule word_and_le1)
  then have "unat (w AND 0x0F) \<le> unat (0x0F :: u32)" by (simp add: word_le_nat_alt)
  then show ?thesis by simp
qed

lemma byte_lt: "unat ((w :: u32) AND 0xFF) < 256"
proof -
  have "w AND 0xFF \<le> 0xFF" by (rule word_and_le1)
  then have "unat (w AND 0xFF) \<le> unat (0xFF :: u32)" by (simp add: word_le_nat_alt)
  then show ?thesis by simp
qed

lemma unat_ucast16: "unat (ucast (c :: u16) :: u32) = unat c"
proof -
  have "unat c < 2 ^ 16" using unsigned_less [of c] by simp
  then have "unat c < 2 ^ 32" by simp
  then show ?thesis by (simp add: unsigned_ucast_eq take_bit_nat_eq_self)
qed

lemma top_nib_lt: "unat (drop_bit 12 (ucast (c :: u16) :: u32)) < 16"
proof -
  have "unat c < 2 ^ 16" using unsigned_less [of c] by simp
  moreover have "unat (drop_bit 12 (ucast c :: u32)) = unat c div 2 ^ 12"
    by (simp only: unat_drop_bit_eq unat_ucast16) (simp only: drop_bit_eq_div)
  ultimately show ?thesis by simp
qed

lemma top_byte_lt: "unat (drop_bit 8 (ucast (c :: u16) :: u32)) < 256"
proof -
  have "unat c < 2 ^ 16" using unsigned_less [of c] by simp
  moreover have "unat (drop_bit 8 (ucast c :: u32)) = unat c div 2 ^ 8"
    by (simp only: unat_drop_bit_eq unat_ucast16) (simp only: drop_bit_eq_div)
  ultimately show ?thesis by simp
qed

lemma top_nib: "drop_bit 12 (ucast (c :: u16) :: u32) AND 0x0F = drop_bit 12 (ucast c)"
proof -
  have "drop_bit 12 (ucast c :: u32) < 2 ^ 4"
    using top_nib_lt [of c] by (simp add: word_less_nat_alt)
  then have "drop_bit 12 (ucast c :: u32) AND mask 4 = drop_bit 12 (ucast c)"
    by (rule less_mask_eq)
  then show ?thesis by (simp add: mask_eq_exp_minus_1)
qed

lemma top_byte: "drop_bit 8 (ucast (c :: u16) :: u32) AND 0xFF = drop_bit 8 (ucast c)"
proof -
  have "drop_bit 8 (ucast c :: u32) < 2 ^ 8"
    using top_byte_lt [of c] by (simp add: word_less_nat_alt)
  then have "drop_bit 8 (ucast c :: u32) AND mask 8 = drop_bit 8 (ucast c)"
    by (rule less_mask_eq)
  then show ?thesis by (simp add: mask_eq_exp_minus_1)
qed


lemma unat_consts:
  "unat VRAM_WIDTH = 1024" "unat TEXTURE_PAGE_WIDTH = 256" "unat TEXTURE_PAGE_HEIGHT = 256"
  "unat VRAM_PAGE_WIDTH = 64" "unat VRAM_PAGE_HEIGHT = 256"
  by (simp_all add: vram_consts)

lemma row_in_vram:
  assumes "footprint_in_vram env pagep n" "y < 256" "x < n"
  shows "pagep + y * 1024 + x < length (g_vram env)"
proof -
  have "y * 1024 \<le> 255 * 1024" using assms(2) by simp
  then show ?thesis using assms(1,3) by (simp add: footprint_in_vram_def unat_consts)
qed

lemma DecodeTexture16_ok:
  assumes "footprint_in_vram env pagep 256"
  shows "DecodeTexture16 env pagep
         = Inr (map (\<lambda>y. map (\<lambda>x. texel16_spec env pagep y x) [0..<256]) [0..<256])"
  unfolding DecodeTexture16_def unat_consts
proof (rule mapE_Inr_map)
  fix y assume y: "y \<in> set [0..<256]"
  show "mapE (\<lambda>x. map_sum id (VRAMRGBA5551ToRGBA8888 env) (vram_read env (pagep + y * 1024 + x)))
          [0..<256] = Inr (map (\<lambda>x. texel16_spec env pagep y x) [0..<256])"
  proof (rule mapE_Inr_map)
    fix x assume x: "x \<in> set [0..<256]"
    have "pagep + y * 1024 + x < length (g_vram env)"
      using row_in_vram [OF assms, of y x] x y by simp
    then show "map_sum id (VRAMRGBA5551ToRGBA8888 env) (vram_read env (pagep + y * 1024 + x))
               = Inr (texel16_spec env pagep y x)"
      by (simp add: vram_read_in texel16_spec_def unat_consts)
  qed
qed


lemma upt4: "[0..<4] = [0, 1, 2, 3::nat]"
  by (simp add: upt_rec)

lemma upt2: "[0..<2] = [0, 1::nat]"
  by (simp add: upt_rec)

lemma cell4_ok:
  assumes pal: "clut_in_vram env pal 16"
  shows "mapE (\<lambda>i. map_sum id (VRAMRGBA5551ToRGBA8888 env) (vram_read env (pal + unat i)))
           [ucast (c :: u16) AND 0x0F, (drop_bit 4 (ucast c)) AND 0x0F,
            (drop_bit 8 (ucast c)) AND 0x0F, drop_bit 12 (ucast c :: u32)]
         = Inr (map (\<lambda>j. VRAMRGBA5551ToRGBA8888 env
                  (g_vram env ! (pal + unat (drop_bit (4 * j) (ucast c :: u32) AND 0x0F))))
                [0..<4])"
proof -
  have in_clut: "pal + unat (w AND 0x0F) < length (g_vram env)" for w :: u32
    using pal nib_lt [of w] by (simp add: clut_in_vram_def)
  have top: "pal + unat (drop_bit 12 (ucast c :: u32)) < length (g_vram env)"
    using pal top_nib_lt [of c] by (simp add: clut_in_vram_def)
  have t: "drop_bit (4 * 3) (ucast c :: u32) AND 0x0F = drop_bit 12 (ucast c)"
    using top_nib [of c] by simp
  show ?thesis
    unfolding upt4
    using in_clut [of "ucast c"] in_clut [of "drop_bit 4 (ucast c)"]
      in_clut [of "drop_bit 8 (ucast c)"] top t
    by (simp add: vram_read_in)
qed


lemma cell8_ok:
  assumes pal: "clut_in_vram env pal 256"
  shows "mapE (\<lambda>i. map_sum id (VRAMRGBA5551ToRGBA8888 env) (vram_read env (pal + unat i)))
           [ucast (c :: u16) AND 0xFF, drop_bit 8 (ucast c :: u32)]
         = Inr (map (\<lambda>j. VRAMRGBA5551ToRGBA8888 env
                  (g_vram env ! (pal + unat (drop_bit (8 * j) (ucast c :: u32) AND 0xFF))))
                [0..<2])"
proof -
  have in_clut: "pal + unat (w AND 0xFF) < length (g_vram env)" for w :: u32
    using pal byte_lt [of w] by (simp add: clut_in_vram_def)
  have top: "pal + unat (drop_bit 8 (ucast c :: u32)) < length (g_vram env)"
    using pal top_byte_lt [of c] by (simp add: clut_in_vram_def)
  have t: "drop_bit (8 * 1) (ucast c :: u32) AND 0xFF = drop_bit 8 (ucast c)"
    using top_byte [of c] by simp
  show ?thesis
    unfolding upt2
    using in_clut [of "ucast c"] top t
    by (simp add: vram_read_in)
qed

lemma texel4_spec_cell:
  "j < 4 \<Longrightarrow> texel4_spec env pagep pal y (4 * x + j)
   = VRAMRGBA5551ToRGBA8888 env
       (g_vram env ! (pal + unat (drop_bit (4 * j)
          (ucast (g_vram env ! (pagep + y * 1024 + x)) :: u32) AND 0x0F)))"
  by (simp add: texel4_spec_def unat_consts Let_def)

lemma texel8_spec_cell:
  "j < 2 \<Longrightarrow> texel8_spec env pagep pal y (2 * x + j)
   = VRAMRGBA5551ToRGBA8888 env
       (g_vram env ! (pal + unat (drop_bit (8 * j)
          (ucast (g_vram env ! (pagep + y * 1024 + x)) :: u32) AND 0xFF)))"
  by (simp add: texel8_spec_def unat_consts Let_def)

lemma DecodeTexture4_ok:
  assumes fp: "footprint_in_vram env pagep 64" and pal: "clut_in_vram env pal 16"
  shows "DecodeTexture4 env pagep pal
         = Inr (map (\<lambda>y. concat (map (\<lambda>x. map (\<lambda>j. texel4_spec env pagep pal y (4 * x + j)) [0..<4])
                                  [0..<64])) [0..<256])"
  unfolding DecodeTexture4_def unat_consts
proof (rule mapE_Inr_map)
  fix y assume y: "y \<in> set [0..<256]"
  have "mapE (\<lambda>x. case vram_read env (pagep + y * 1024 + x) of
                    Inl e \<Rightarrow> Inl e
                  | Inr c \<Rightarrow>
                      let pp = (ucast c :: u32)
                      in mapE (\<lambda>i. map_sum id (VRAMRGBA5551ToRGBA8888 env) (vram_read env (pal + unat i)))
                           [pp AND 0x0F, (drop_bit 4 pp) AND 0x0F, (drop_bit 8 pp) AND 0x0F, drop_bit 12 pp])
          [0 ..< 256 div 4]
        = Inr (map (\<lambda>x. map (\<lambda>j. texel4_spec env pagep pal y (4 * x + j)) [0..<4]) [0 ..< 256 div 4])"
  proof (rule mapE_Inr_map)
    fix x assume x: "x \<in> set [0 ..< 256 div 4]"
    have "pagep + y * 1024 + x < length (g_vram env)"
      using row_in_vram [OF fp, of y x] x y by simp
    then have rd: "vram_read env (pagep + y * 1024 + x) = Inr (g_vram env ! (pagep + y * 1024 + x))"
      by (rule vram_read_in)
    have "map (\<lambda>j. texel4_spec env pagep pal y (4 * x + j)) [0..<4]
          = map (\<lambda>j. VRAMRGBA5551ToRGBA8888 env
                  (g_vram env ! (pal + unat (drop_bit (4 * j)
                     (ucast (g_vram env ! (pagep + y * 1024 + x)) :: u32) AND 0x0F)))) [0..<4]"
      by (rule map_cong) (simp_all add: texel4_spec_cell)
    then show "(case vram_read env (pagep + y * 1024 + x) of
                  Inl e \<Rightarrow> Inl e
                | Inr c \<Rightarrow>
                    let pp = (ucast c :: u32)
                    in mapE (\<lambda>i. map_sum id (VRAMRGBA5551ToRGBA8888 env) (vram_read env (pal + unat i)))
                         [pp AND 0x0F, (drop_bit 4 pp) AND 0x0F, (drop_bit 8 pp) AND 0x0F, drop_bit 12 pp])
               = Inr (map (\<lambda>j. texel4_spec env pagep pal y (4 * x + j)) [0..<4])"
      unfolding rd using cell4_ok [OF pal, of "g_vram env ! (pagep + y * 1024 + x)"]
      by (simp only: sum.case Let_def)
  qed
  then show "map_sum id concat
          (mapE (\<lambda>x. case vram_read env (pagep + y * 1024 + x) of
                    Inl e \<Rightarrow> Inl e
                  | Inr c \<Rightarrow>
                      let pp = (ucast c :: u32)
                      in mapE (\<lambda>i. map_sum id (VRAMRGBA5551ToRGBA8888 env) (vram_read env (pal + unat i)))
                           [pp AND 0x0F, (drop_bit 4 pp) AND 0x0F, (drop_bit 8 pp) AND 0x0F, drop_bit 12 pp])
          [0 ..< 256 div 4])
        = Inr (concat (map (\<lambda>x. map (\<lambda>j. texel4_spec env pagep pal y (4 * x + j)) [0..<4]) [0..<64]))"
    by simp
qed

lemma DecodeTexture8_ok:
  assumes fp: "footprint_in_vram env pagep 128" and pal: "clut_in_vram env pal 256"
  shows "DecodeTexture8 env pagep pal
         = Inr (map (\<lambda>y. concat (map (\<lambda>x. map (\<lambda>j. texel8_spec env pagep pal y (2 * x + j)) [0..<2])
                                  [0..<128])) [0..<256])"
  unfolding DecodeTexture8_def unat_consts
proof (rule mapE_Inr_map)
  fix y assume y: "y \<in> set [0..<256]"
  have "mapE (\<lambda>x. case vram_read env (pagep + y * 1024 + x) of
                    Inl e \<Rightarrow> Inl e
                  | Inr c \<Rightarrow>
                      let pp = (ucast c :: u32)
                      in mapE (\<lambda>i. map_sum id (VRAMRGBA5551ToRGBA8888 env) (vram_read env (pal + unat i)))
                           [pp AND 0xFF, drop_bit 8 pp])
          [0 ..< 256 div 2]
        = Inr (map (\<lambda>x. map (\<lambda>j. texel8_spec env pagep pal y (2 * x + j)) [0..<2]) [0 ..< 256 div 2])"
  proof (rule mapE_Inr_map)
    fix x assume x: "x \<in> set [0 ..< 256 div 2]"
    have "pagep + y * 1024 + x < length (g_vram env)"
      using row_in_vram [OF fp, of y x] x y by simp
    then have rd: "vram_read env (pagep + y * 1024 + x) = Inr (g_vram env ! (pagep + y * 1024 + x))"
      by (rule vram_read_in)
    have "map (\<lambda>j. texel8_spec env pagep pal y (2 * x + j)) [0..<2]
          = map (\<lambda>j. VRAMRGBA5551ToRGBA8888 env
                  (g_vram env ! (pal + unat (drop_bit (8 * j)
                     (ucast (g_vram env ! (pagep + y * 1024 + x)) :: u32) AND 0xFF)))) [0..<2]"
      by (rule map_cong) (simp_all add: texel8_spec_cell)
    then show "(case vram_read env (pagep + y * 1024 + x) of
                  Inl e \<Rightarrow> Inl e
                | Inr c \<Rightarrow>
                    let pp = (ucast c :: u32)
                    in mapE (\<lambda>i. map_sum id (VRAMRGBA5551ToRGBA8888 env) (vram_read env (pal + unat i)))
                         [pp AND 0xFF, drop_bit 8 pp])
               = Inr (map (\<lambda>j. texel8_spec env pagep pal y (2 * x + j)) [0..<2])"
      unfolding rd using cell8_ok [OF pal, of "g_vram env ! (pagep + y * 1024 + x)"]
      by (simp only: sum.case Let_def)
  qed
  then show "map_sum id concat
          (mapE (\<lambda>x. case vram_read env (pagep + y * 1024 + x) of
                    Inl e \<Rightarrow> Inl e
                  | Inr c \<Rightarrow>
                      let pp = (ucast c :: u32)
                      in mapE (\<lambda>i. map_sum id (VRAMRGBA5551ToRGBA8888 env) (vram_read env (pal + unat i)))
                           [pp AND 0xFF, drop_bit 8 pp])
          [0 ..< 256 div 2])
        = Inr (concat (map (\<lambda>x. map (\<lambda>j. texel8_spec env pagep pal y (2 * x + j)) [0..<2]) [0..<128]))"
    by simp
qed


text \<open>
  Claim C9. Whenever the cells a decoder reads lie in VRAM, it returns the 256 rows of
  256 texels of the reference mapping: in the 16-bit direct modes the conversion of cell
  \<open>y * VRAM_WIDTH + x\<close> of the page; in the 4-bit mode four consecutive texels per cell,
  from its nibbles low to high through the 16-entry CLUT; in the 8-bit mode two texels
  per cell, from its low then its high byte through the 256-entry CLUT.
\<close>

theorem C9_decoders_reference_mapping:
  "(footprint_in_vram env (VRAMPagePointer (ucast pg)) 256 \<and>
    (md = Direct16Bit \<or> md = Reserved_Direct16Bit) \<longrightarrow>
      (\<exists>dest. DecodeTexture env pg pal md = Inr dest \<and> length dest = 256 \<and>
         (\<forall>y < 256. length (dest ! y) = 256 \<and>
            (\<forall>x < 256. dest ! y ! x = texel16_spec env (VRAMPagePointer (ucast pg)) y x)))) \<and>
   (footprint_in_vram env (VRAMPagePointer (ucast pg)) 64 \<and>
    clut_in_vram env (PalettePointer env pal) 16 \<longrightarrow>
      (\<exists>dest. DecodeTexture env pg pal Palette4Bit = Inr dest \<and> length dest = 256 \<and>
         (\<forall>y < 256. length (dest ! y) = 256 \<and>
            (\<forall>x < 256. dest ! y ! x
               = texel4_spec env (VRAMPagePointer (ucast pg)) (PalettePointer env pal) y x)))) \<and>
   (footprint_in_vram env (VRAMPagePointer (ucast pg)) 128 \<and>
    clut_in_vram env (PalettePointer env pal) 256 \<longrightarrow>
      (\<exists>dest. DecodeTexture env pg pal Palette8Bit = Inr dest \<and> length dest = 256 \<and>
         (\<forall>y < 256. length (dest ! y) = 256 \<and>
            (\<forall>x < 256. dest ! y ! x
               = texel8_spec env (VRAMPagePointer (ucast pg)) (PalettePointer env pal) y x))))"
proof (intro conjI impI)
  assume a: "footprint_in_vram env (VRAMPagePointer (ucast pg)) 256 \<and>
             (md = Direct16Bit \<or> md = Reserved_Direct16Bit)"
  then have "DecodeTexture env pg pal md
             = Inr (map (\<lambda>y. map (\<lambda>x. texel16_spec env (VRAMPagePointer (ucast pg)) y x) [0..<256])
                      [0..<256])"
    using DecodeTexture16_ok [of env "VRAMPagePointer (ucast pg)"]
    by (auto simp: DecodeTexture_def)
  then show "\<exists>dest. DecodeTexture env pg pal md = Inr dest \<and> length dest = 256 \<and>
         (\<forall>y < 256. length (dest ! y) = 256 \<and>
            (\<forall>x < 256. dest ! y ! x = texel16_spec env (VRAMPagePointer (ucast pg)) y x))"
    by simp
next
  let ?pp = "VRAMPagePointer (ucast pg)" and ?pl = "PalettePointer env pal"
  assume a: "footprint_in_vram env ?pp 64 \<and> clut_in_vram env ?pl 16"
  let ?row = "\<lambda>y. concat (map (\<lambda>x. map (\<lambda>j. texel4_spec env ?pp ?pl y (4 * x + j)) [0..<4]) [0..<64])"
  have dec: "DecodeTexture env pg pal Palette4Bit = Inr (map ?row [0..<256])"
    using a DecodeTexture4_ok [of env ?pp ?pl] by (simp add: DecodeTexture_def)
  have len: "length (?row y) = 256" for y
    by (subst length_concat_fixed [where k = 4]) auto
  have nth: "?row y ! x = texel4_spec env ?pp ?pl y x" if "x < 256" for x y
  proof -
    have "?row y ! ((x div 4) * 4 + x mod 4)
          = map (\<lambda>x. map (\<lambda>j. texel4_spec env ?pp ?pl y (4 * x + j)) [0..<4]) [0..<64] ! (x div 4) ! (x mod 4)"
      using that by (intro concat_nth_fixed) auto
    also have "\<dots> = texel4_spec env ?pp ?pl y (4 * (x div 4) + x mod 4)"
      using that by simp
    finally show ?thesis by (simp add: mult.commute)
  qed
  show "\<exists>dest. DecodeTexture env pg pal Palette4Bit = Inr dest \<and> length dest = 256 \<and>
         (\<forall>y < 256. length (dest ! y) = 256 \<and>
            (\<forall>x < 256. dest ! y ! x = texel4_spec env ?pp ?pl y x))"
    unfolding dec using len nth by simp
next
  let ?pp = "VRAMPagePointer (ucast pg)" and ?pl = "PalettePointer env pal"
  assume a: "footprint_in_vram env ?pp 128 \<and> clut_in_vram env ?pl 256"
  let ?row = "\<lambda>y. concat (map (\<lambda>x. map (\<lambda>j. texel8_spec env ?pp ?pl y (2 * x + j)) [0..<2]) [0..<128])"
  have dec: "DecodeTexture env pg pal Palette8Bit = Inr (map ?row [0..<256])"
    using a DecodeTexture8_ok [of env ?pp ?pl] by (simp add: DecodeTexture_def)
  have len: "length (?row y) = 256" for y
    by (subst length_concat_fixed [where k = 2]) auto
  have nth: "?row y ! x = texel8_spec env ?pp ?pl y x" if "x < 256" for x y
  proof -
    have "?row y ! ((x div 2) * 2 + x mod 2)
          = map (\<lambda>x. map (\<lambda>j. texel8_spec env ?pp ?pl y (2 * x + j)) [0..<2]) [0..<128] ! (x div 2) ! (x mod 2)"
      using that by (intro concat_nth_fixed) auto
    also have "\<dots> = texel8_spec env ?pp ?pl y (2 * (x div 2) + x mod 2)"
      using that by simp
    finally show ?thesis by (simp add: mult.commute)
  qed
  show "\<exists>dest. DecodeTexture env pg pal Palette8Bit = Inr dest \<and> length dest = 256 \<and>
         (\<forall>y < 256. length (dest ! y) = 256 \<and>
            (\<forall>x < 256. dest ! y ! x = texel8_spec env ?pp ?pl y x))"
    unfolding dec using len nth by simp
qed

lemma flat_env_simps:
  "length (g_vram (flat_env v)) = 524288"
  "i < 524288 \<Longrightarrow> g_vram (flat_env v) ! i = v"
  "VRAMRGBA5551ToRGBA8888 (flat_env v) = ucast"
  "GetXBase (flat_env v) 0 = 0" "GetYBase (flat_env v) 0 = 0"
  by (simp_all add: flat_env_def unat_consts VRAM_HEIGHT_def)

lemma VRAMPagePointer_0: "VRAMPagePointer 0 = 0"
  by (simp add: VRAMPagePointer_def PageStartX_def PageStartY_def vram_consts)

lemma PalettePointer_flat_0: "PalettePointer (flat_env v) 0 = 0"
  by (simp add: PalettePointer_def flat_env_simps)

theorem C9_decoders_reference_mapping_witness:
  "footprint_in_vram (flat_env 0x7FFF) (VRAMPagePointer (ucast (0 :: u8))) 256 \<and>
   clut_in_vram (flat_env 0x7FFF) (PalettePointer (flat_env 0x7FFF) 0) 256 \<and>
   (\<exists>dest. DecodeTexture (flat_env 0x7FFF) 0 0 Direct16Bit = Inr dest \<and> dest ! 3 ! 5 = 0x7FFF) \<and>
   (\<exists>dest. DecodeTexture (flat_env 0x7FFF) 0 0 Palette4Bit = Inr dest \<and> dest ! 3 ! 5 = 0x7FFF) \<and>
   (\<exists>dest. DecodeTexture (flat_env 0x7FFF) 0 0 Palette8Bit = Inr dest \<and> dest ! 3 ! 5 = 0x7FFF)"
proof -
  let ?e = "flat_env 0x7FFF"
  have f256: "footprint_in_vram ?e (VRAMPagePointer (ucast (0 :: u8))) 256"
    by (simp add: footprint_in_vram_def VRAMPagePointer_0 flat_env_simps unat_consts)
  then have f128: "footprint_in_vram ?e (VRAMPagePointer (ucast (0 :: u8))) 128"
    and f64: "footprint_in_vram ?e (VRAMPagePointer (ucast (0 :: u8))) 64"
    by (simp_all add: footprint_in_vram_def)
  have c256: "clut_in_vram ?e (PalettePointer ?e 0) 256"
    by (simp add: clut_in_vram_def PalettePointer_flat_0 flat_env_simps)
  then have c16: "clut_in_vram ?e (PalettePointer ?e 0) 16"
    by (simp add: clut_in_vram_def)
  have t16: "texel16_spec ?e 0 3 5 = 0x7FFF"
    by (simp add: texel16_spec_def flat_env_simps unat_consts)
  have t4: "texel4_spec ?e 0 0 3 5 = 0x7FFF"
    by (simp add: texel4_spec_def flat_env_simps unat_consts)
  have t8: "texel8_spec ?e 0 0 3 5 = 0x7FFF"
    by (simp add: texel8_spec_def flat_env_simps unat_consts)
  note main = C9_decoders_reference_mapping [of ?e 0 Direct16Bit 0]
  from main f256 obtain d16 where d16: "DecodeTexture ?e 0 0 Direct16Bit = Inr d16"
    "\<forall>y<256. length (d16 ! y) = 256 \<and> (\<forall>x<256. d16 ! y ! x = texel16_spec ?e (VRAMPagePointer (ucast (0::u8))) y x)"
    by blast
  from main f64 c16 obtain d4 where d4: "DecodeTexture ?e 0 0 Palette4Bit = Inr d4"
    "\<forall>y<256. length (d4 ! y) = 256 \<and> (\<forall>x<256. d4 ! y ! x = texel4_spec ?e (VRAMPagePointer (ucast (0::u8))) (PalettePointer ?e 0) y x)"
    by blast
  from main f128 c256 obtain d8 where d8: "DecodeTexture ?e 0 0 Palette8Bit = Inr d8"
    "\<forall>y<256. length (d8 ! y) = 256 \<and> (\<forall>x<256. d8 ! y ! x = texel8_spec ?e (VRAMPagePointer (ucast (0::u8))) (PalettePointer ?e 0) y x)"
    by blast
  have "d16 ! 3 ! 5 = 0x7FFF" using d16(2) t16 by (simp add: VRAMPagePointer_0)
  moreover have "d4 ! 3 ! 5 = 0x7FFF" using d4(2) t4 by (simp add: VRAMPagePointer_0 PalettePointer_flat_0)
  moreover have "d8 ! 3 ! 5 = 0x7FFF" using d8(2) t8 by (simp add: VRAMPagePointer_0 PalettePointer_flat_0)
  ultimately show ?thesis using f256 c256 d16(1) d4(1) d8(1) by blast
qed

section \<open>Hashing and source creation\<close>

lemma hash_rows_ok:
  assumes "footprint_in_vram env p n"
  shows "\<exists>h. hash_rows env p n = Inr h"
proof -
  have "mapE (\<lambda>y. mapE (vram_read env) [p + y * 1024 ..< p + y * 1024 + n]) [0 ..< 256]
        = Inr (map (\<lambda>y. map (\<lambda>i. g_vram env ! i) [p + y * 1024 ..< p + y * 1024 + n]) [0 ..< 256])"
  proof (rule mapE_Inr_map)
    fix y assume y: "y \<in> set [0..<256]"
    show "mapE (vram_read env) [p + y * 1024 ..< p + y * 1024 + n]
          = Inr (map (\<lambda>i. g_vram env ! i) [p + y * 1024 ..< p + y * 1024 + n])"
    proof (rule mapE_Inr_map)
      fix i assume "i \<in> set [p + y * 1024 ..< p + y * 1024 + n]"
      then obtain x where "i = p + y * 1024 + x" "x < n"
        by (auto simp: le_iff_add)
      then show "vram_read env i = Inr (g_vram env ! i)"
        using row_in_vram [OF assms, of y x] y by (simp add: vram_read_in)
    qed
  qed
  then show ?thesis by (simp add: hash_rows_def unat_consts)
qed

lemma footprint_flat_0: "footprint_in_vram (flat_env v) 0 256"
  by (simp add: footprint_in_vram_def flat_env_simps unat_consts)

lemma LookupHashCache_flat_16:
  assumes "m_hash_cache s = []"
  shows "\<exists>hk tex'. LookupHashCache (flat_env v) (Some tex)
                      \<lparr>page = 0, mode = Direct16Bit, palette = 0\<rparr> s
                    = Inr (Some hk, s\<lparr>m_hash_cache :=
                             [(hk, \<lparr>texture = tex', ref_count = 0, age = 0\<rparr>)]\<rparr>)
                    \<and> handle tex' = handle tex"
proof -
  obtain h where h: "HashPage (flat_env v) 0 Direct16Bit = Inr h"
    using hash_rows_ok [OF footprint_flat_0, of v]
    by (auto simp: HashPage_def VRAMPagePointer_0 unat_consts)
  obtain dest where d: "DecodeTexture (flat_env v) 0 0 Direct16Bit = Inr dest"
    using DecodeTexture16_ok [OF footprint_flat_0, of v]
    by (auto simp: DecodeTexture_def VRAMPagePointer_0)
  have "LookupHashCache (flat_env v) (Some tex) \<lparr>page = 0, mode = Direct16Bit, palette = 0\<rparr> s
        = Inr (Some \<lparr>texture_hash = h, palette_hash = 0, hmode = 2\<rparr>,
               s\<lparr>m_hash_cache :=
                   [(\<lparr>texture_hash = h, palette_hash = 0, hmode = 2\<rparr>,
                     \<lparr>texture = tex\<lparr>texels := dest\<rparr>, ref_count = 0, age = 0\<rparr>)]\<rparr>)"
    using assms by (simp add: LookupHashCache_def h d DecodeTexture_into_def Let_def)
  moreover have "handle (tex\<lparr>texels := dest\<rparr>) = handle tex" by simp
  ultimately show ?thesis by blast
qed

lemma footprint_page0_pages:
  "LoopPages (PageStartX 0) (PageStartY 0) (WidthForMode Direct16Bit) TEXTURE_PAGE_HEIGHT
   = Inr [0, 0, 0, 0]"
  by (simp add: LoopPages_simps PageStartX_def PageStartY_def WidthForMode_def vram_consts
      PageIndex_def)

lemma CreateSource_flat_16:
  "\<exists>p s' src.
      CreateSource (flat_env 0) (Some \<lparr>handle = 0, texels = []\<rparr>)
        \<lparr>page = 0, mode = Direct16Bit, palette = 0\<rparr>
        (new_cache \<lparr>left = 0, top = 0, right = 0, bottom = 0\<rparr>) = Inr (Some p, s') \<and>
      heap s' p = Some src \<and> num_page_refs src = 1 \<and> page_refs src = [0] \<and>
      m_page_sources s' 0 = [(p, 0)] \<and> m_page_sources s' 1 = [] \<and>
      m_page_sources s' 2 = [] \<and> m_page_sources s' 3 = []"
proof -
  let ?s = "new_cache \<lparr>left = 0, top = 0, right = 0, bottom = 0\<rparr>"
  obtain hk tex' where hc:
    "LookupHashCache (flat_env 0) (Some \<lparr>handle = 0, texels = []\<rparr>)
       \<lparr>page = 0, mode = Direct16Bit, palette = 0\<rparr> ?s
     = Inr (Some hk, ?s\<lparr>m_hash_cache := [(hk, \<lparr>texture = tex', ref_count = 0, age = 0\<rparr>)]\<rparr>)"
    using LookupHashCache_flat_16 [where s = ?s and tex = "\<lparr>handle = 0, texels = []\<rparr>" and v = 0]
    by (auto simp: new_cache_def)
  show ?thesis
    unfolding CreateSource_def hc
    using footprint_page0_pages
    by (simp add: new_cache_def add_page_ref_def add_ref_with_def ListPrepend_def
        MAX_PAGE_REFS_PER_SOURCE_def NUM_PAGES_def VRAM_PAGES_WIDE_def VRAM_PAGES_HIGH_def
        VRAM_WIDTH_def VRAM_HEIGHT_def VRAM_PAGE_WIDTH_def VRAM_PAGE_HEIGHT_def Let_def)
qed

text \<open>
  Claim C2. A Source is to be linked on every page its texture footprint intersects (and,
  when paletted, on the pages of its CLUT row). The footprint of the 16-bit key on page 0
  is 256 cells wide: it intersects the pages 0, 1, 2 and 3. \<open>LoopPages\<close> hands page 0 to
  \<open>add_page_ref\<close> four times, so \<open>CreateSource\<close> returns a Source with a single page
  reference, linked on the list of page 0 only; the lists of the pages 1, 2 and 3 stay
  empty.
\<close>

theorem C2_CreateSource_misses_footprint_pages:
  "LoopPages (PageStartX 0) (PageStartY 0) (WidthForMode Direct16Bit) TEXTURE_PAGE_HEIGHT
     = Inr [0, 0, 0, 0] \<and>
   (\<exists>p s' src.
      CreateSource (flat_env 0) (Some \<lparr>handle = 0, texels = []\<rparr>)
        \<lparr>page = 0, mode = Direct16Bit, palette = 0\<rparr>
        (new_cache \<lparr>left = 0, top = 0, right = 0, bottom = 0\<rparr>) = Inr (Some p, s') \<and>
      heap s' p = Some src \<and> num_page_refs src = 1 \<and> page_refs src = [0] \<and>
      m_page_sources s' 0 = [(p, 0)] \<and> m_page_sources s' 1 = [] \<and>
      m_page_sources s' 2 = [] \<and> m_page_sources s' 3 = [])"
  using footprint_page0_pages CreateSource_flat_16 by blast

text \<open>
  Claim C3. \<open>Reserved_Direct16Bit\<close> is to behave as \<open>Direct16Bit\<close> along the whole
  lookup path, with no operation unreachable. The decoder does treat the two modes
  alike, but the \<open>switch\<close> of \<open>HashPage\<close> has no case for \<open>Reserved_Direct16Bit\<close>:
  control reaches \<open>DefaultCaseIsUnreachable()\<close>, and so does every \<open>LookupHashCache\<close>
  for the mode, and the \<open>LookupSource\<close> of such a key on a fresh cache.
\<close>

theorem C3_Reserved_Direct16Bit_unreachable:
  "HashPage env pg Reserved_Direct16Bit = Inl Unreachable \<and>
   LookupHashCache env fetched \<lparr>page = pg, mode = Reserved_Direct16Bit, palette = pal\<rparr> s
     = Inl Unreachable \<and>
   LookupSource env fetched \<lparr>page = 0, mode = Reserved_Direct16Bit, palette = 0\<rparr>
     (new_cache d) = Inl Unreachable \<and>
   DecodeTexture env pg pal Reserved_Direct16Bit = DecodeTexture env pg pal Direct16Bit"
  by (simp add: HashPage_def LookupHashCache_def LookupSource_def CreateSource_def
      DecodeTexture_def new_cache_def NUM_PAGES_def VRAM_PAGES_WIDE_def VRAM_PAGES_HIGH_def
        VRAM_WIDTH_def VRAM_HEIGHT_def VRAM_PAGE_WIDTH_def VRAM_PAGE_HEIGHT_def)

section \<open>Lookup\<close>

lemma LookupHashCache_None:
  "LookupHashCache env None k s = Inr (None, s1) \<Longrightarrow> s1 = s"
  by (auto simp: LookupHashCache_def Let_def split: sum.splits option.splits if_splits)

text \<open>
  Claim C8. \<open>LookupHashCache\<close> returns null exactly when it asked the device for a
  texture and got none. Whenever that happens, the cache is the one it was called on,
  \<open>CreateSource\<close> returns null with the cache unchanged, and so does \<open>LookupSource\<close>
  whenever it gets as far as \<open>CreateSource\<close> (the key's page is a page and no Source
  on its list has the key): no entry inserted, no reference count changed, no Source
  allocated, no list changed.
\<close>

theorem C8_FetchTexture_failure:
  "LookupHashCache env None k s = Inr (None, s1) \<Longrightarrow>
   s1 = s \<and> CreateSource env None k s = Inr (None, s) \<and>
   ((ucast (page k) :: u32) < NUM_PAGES \<and>
    find_node (heap s) k (m_page_sources s (unat (page k))) = Inr None
    \<longrightarrow> LookupSource env None k s = Inr (None, s))"
proof -
  assume a: "LookupHashCache env None k s = Inr (None, s1)"
  then have eq: "s1 = s" by (rule LookupHashCache_None)
  with a have cs: "CreateSource env None k s = Inr (None, s)"
    by (simp add: CreateSource_def)
  show ?thesis using eq cs by (simp add: LookupSource_def)
qed

lemma LookupHashCache_flat_16_None:
  assumes "m_hash_cache s = []"
  shows "LookupHashCache (flat_env v) None \<lparr>page = 0, mode = Direct16Bit, palette = 0\<rparr> s
         = Inr (None, s)"
proof -
  obtain h where h: "HashPage (flat_env v) 0 Direct16Bit = Inr h"
    using hash_rows_ok [OF footprint_flat_0, of v]
    by (auto simp: HashPage_def VRAMPagePointer_0 unat_consts)
  show ?thesis using assms by (simp add: LookupHashCache_def h Let_def)
qed

theorem C8_FetchTexture_failure_witness:
  "LookupHashCache (flat_env 0) None \<lparr>page = 0, mode = Direct16Bit, palette = 0\<rparr>
     (new_cache \<lparr>left = 0, top = 0, right = 0, bottom = 0\<rparr>)
   = Inr (None, new_cache \<lparr>left = 0, top = 0, right = 0, bottom = 0\<rparr>) \<and>
   LookupSource (flat_env 0) None \<lparr>page = 0, mode = Direct16Bit, palette = 0\<rparr>
     (new_cache \<lparr>left = 0, top = 0, right = 0, bottom = 0\<rparr>)
   = Inr (None, new_cache \<lparr>left = 0, top = 0, right = 0, bottom = 0\<rparr>)"
proof -
  let ?s = "new_cache \<lparr>left = 0, top = 0, right = 0, bottom = 0\<rparr>"
  let ?k = "\<lparr>page = 0, mode = Direct16Bit, palette = 0\<rparr>"
  have h: "LookupHashCache (flat_env 0) None ?k ?s = Inr (None, ?s)"
    by (rule LookupHashCache_flat_16_None) (simp add: new_cache_def)
  have pg: "(ucast (page ?k) :: u32) < NUM_PAGES" by (simp add: vram_consts)
  have fn: "find_node (heap ?s) ?k (m_page_sources ?s (unat (page ?k))) = Inr None"
    by (simp add: new_cache_def)
  from C8_FetchTexture_failure [OF h] pg fn
  have "LookupSource (flat_env 0) None ?k ?s = Inr (None, ?s)" by blast
  with h show ?thesis by blast
qed


























section \<open>Aging\<close>

























lemma delete_as_filter: "AList.delete k t = filter (\<lambda>x. fst x \<noteq> k) t"
  by (induction t) auto

lemma filter_keys_Cons:
  "filter (\<lambda>x. fst x \<notin> set (k # ks)) t = filter (\<lambda>x. fst x \<notin> set ks) (filter (\<lambda>x. fst x \<noteq> k) t)"
  by (induction t) auto

lemma filter_absent: "map_of t k = None \<Longrightarrow> filter (\<lambda>x. fst x \<noteq> k) t = t"
  by (induction t) (auto split: if_splits)

lemma RemoveFromHashCache_updated:
  "fst (RemoveFromHashCache k (AList.update k e t, rc)) = filter (\<lambda>x. fst x \<noteq> k) t"
proof -
  have "map_of (AList.update k e t) k = Some e" by (simp add: update_conv')
  then have "fst (RemoveFromHashCache k (AList.update k e t, rc)) = AList.delete k (AList.update k e t)"
    by (simp add: RemoveFromHashCache_def)
  also have "\<dots> = AList.delete k t" by (rule delete_update_same)
  finally show ?thesis by (simp only: delete_as_filter)
qed

lemma map_of_filter_key:
  "map_of (filter (\<lambda>x. fst x \<noteq> k) t) = (map_of t)(k := None)"
  by (simp only: delete_as_filter [symmetric] delete_conv')

lemma age_loop_expired:
  assumes "\<forall>k \<in> set ks. \<forall>e. map_of (fst tr) k = Some e \<longrightarrow> ref_count e = 0 \<and> age e = 600"
  shows "fst (fst (age_loop ks tr m pl)) = filter (\<lambda>x. fst x \<notin> set ks) (fst tr) \<and>
         snd (age_loop ks tr m pl) = (m, pl)"
  using assms
proof (induction ks arbitrary: tr)
  case Nil
  then show ?case by simp
next
  case (Cons k ks)
  have pre0: "\<forall>k' \<in> set ks. \<forall>e'. map_of (fst tr) k' = Some e' \<longrightarrow> ref_count e' = 0 \<and> age e' = 600"
    using Cons.prems by simp
  show ?case
  proof (cases "map_of (fst tr) k")
    case None
    show ?thesis
      using None Cons.IH [OF pre0]
      by (simp only: age_loop.simps option.case filter_keys_Cons [of k ks] filter_absent [OF None])
  next
    case (Some e)
    then have e: "ref_count e = 0" "age e = 600" using Cons.prems by simp_all
    let ?tr1 = "RemoveFromHashCache k (AList.update k (e\<lparr>age := age e + 1\<rparr>) (fst tr), snd tr)"
    have t1: "fst ?tr1 = filter (\<lambda>x. fst x \<noteq> k) (fst tr)"
      by (rule RemoveFromHashCache_updated)
    have pre: "\<forall>k' \<in> set ks. \<forall>e'. map_of (fst ?tr1) k' = Some e' \<longrightarrow> ref_count e' = 0 \<and> age e' = 600"
    proof (intro ballI allI impI)
      fix k' e' assume k': "k' \<in> set ks" and m: "map_of (fst ?tr1) k' = Some e'"
      from m have "map_of (fst tr) k' = Some e'"
        unfolding t1 map_of_filter_key by (simp split: if_splits)
      then show "ref_count e' = 0 \<and> age e' = 600" using pre0 k' by simp
    qed
    have step: "age_loop (k # ks) tr m pl = age_loop ks ?tr1 m pl"
      using Some e by (simp add: Let_def MAX_HASH_CACHE_AGE_def)
    show ?thesis
      unfolding step using Cons.IH [OF pre]
      by (simp only: t1 filter_keys_Cons [of k ks])
  qed
qed

lemma entries_to_purge_underflow: "entries_to_purge (Suc 0) (Suc 0) = 1"
  by (simp add: entries_to_purge_def MAX_HASH_CACHE_SIZE_def)

lemma entries_to_purge_value: "ucast ((of_nat 1 :: u64) - of_nat MAX_HASH_CACHE_SIZE) = (4294967097 :: u32)"
  by (simp add: MAX_HASH_CACHE_SIZE_def)

lemma AgeHashCache_young_then_expired:
  assumes t: "m_hash_cache s = (k0, y) # olds"
    and y: "ref_count y = 0" "age y = 0"
    and olds: "\<forall>x \<in> set olds. fst x \<noteq> k0 \<and> ref_count (snd x) = 0 \<and> age (snd x) = 600"
    and len: "length olds \<ge> 200"
  shows "fst (fst (age_loop (map fst (m_hash_cache s)) (m_hash_cache s, recycled s)
                     (length (m_hash_cache s) > MAX_HASH_CACHE_SIZE) []))
           = [(k0, y\<lparr>age := 1\<rparr>)] \<and>
         m_hash_cache (AgeHashCache s) = []"
proof -
  let ?y' = "y\<lparr>age := 1\<rparr>"
  let ?T1 = "(k0, ?y') # olds"
  let ?r = "age_loop (map fst (m_hash_cache s)) (m_hash_cache s, recycled s)
              (length (m_hash_cache s) > MAX_HASH_CACHE_SIZE) []"
  let ?r1 = "age_loop (map fst olds) (?T1, recycled s) True [(k0, 1)]"
  have step: "?r = ?r1"
    using y len by (simp add: t Let_def MAX_HASH_CACHE_AGE_def MAX_HASH_CACHE_SIZE_def)
  have pre: "\<forall>k \<in> set (map fst olds). \<forall>e. map_of (fst (?T1, recycled s)) k = Some e
               \<longrightarrow> ref_count e = 0 \<and> age e = 600"
  proof (intro ballI allI impI)
    fix k e assume k: "k \<in> set (map fst olds)" and m: "map_of (fst (?T1, recycled s)) k = Some e"
    from k olds have "k \<noteq> k0" by auto
    with m have "map_of olds k = Some e" by simp
    then have "(k, e) \<in> set olds" by (rule map_of_SomeD)
    then show "ref_count e = 0 \<and> age e = 600" using olds by fastforce
  qed
  have "filter (\<lambda>x. fst x \<notin> set (map fst olds)) olds = []"
    by (auto simp: filter_empty_conv)
  moreover have "k0 \<notin> set (map fst olds)" using olds by auto
  ultimately have flt: "filter (\<lambda>x. fst x \<notin> set (map fst olds)) ?T1 = [(k0, ?y')]"
    by simp
  from age_loop_expired [OF pre, of True "[(k0, 1)]"] flt
  have r1: "fst (fst ?r1) = [(k0, ?y')]" "snd ?r1 = (True, [(k0, 1)])"
    by simp_all
  obtain rc' where f: "fst ?r1 = ([(k0, ?y')], rc')"
    using r1(1) by (cases "fst ?r1") simp
  have purge: "fst (purge_loop (unat (entries_to_purge (Suc 0) (Suc 0))) (sort_purge_list [(k0, 1)])
                 ([(k0, ?y')], rc')) = []"
    by (simp add: entries_to_purge_underflow sort_purge_list_def RemoveFromHashCache_def)
  have "m_hash_cache (AgeHashCache s) = []"
    unfolding AgeHashCache_def Let_def step
    using r1(2) f purge by simp
  then show ?thesis using r1(1) step by simp
qed

text \<open>
  Claim C6. The sweep is to remove an unreferenced entry in its first pass exactly when
  its incremented age exceeds 600, and to purge further entries only if the table still
  has more than 200 entries after that pass. On \<open>aged_table\<close> the first pass keeps the
  one young entry (age 1) and removes the 200 expired ones, so a single entry is left;
  but \<open>might_need_cache_purge\<close> is still set from the check made at the young entry,
  and \<open>size() - MAX_HASH_CACHE_SIZE\<close> wraps around below zero, so
  \<open>entries_to_purge\<close> is the whole purge list: the young entry is removed too and the
  table ends empty.
\<close>

theorem C6_AgeHashCache_purges_below_limit:
  "length aged_table = 201 \<and>
   fst (fst (age_loop (map fst aged_table) (aged_table, [])
               (length aged_table > MAX_HASH_CACHE_SIZE) []))
     = [(\<lparr>texture_hash = 0, palette_hash = 0, hmode = 0\<rparr>,
         \<lparr>texture = \<lparr>handle = 0, texels = []\<rparr>, ref_count = 0, age = 1\<rparr>)] \<and>
   entries_to_purge 1 1 = 1 \<and>
   m_hash_cache (AgeHashCache
     ((new_cache \<lparr>left = 0, top = 0, right = 0, bottom = 0\<rparr>)\<lparr>m_hash_cache := aged_table\<rparr>))
     = []"
proof -
  let ?k0 = "\<lparr>texture_hash = 0, palette_hash = 0, hmode = 0\<rparr>"
  let ?y = "\<lparr>texture = \<lparr>handle = 0, texels = []\<rparr>, ref_count = 0, age = 0\<rparr>"
  let ?olds = "map (\<lambda>i. (\<lparr>texture_hash = of_nat i, palette_hash = 0, hmode = 2\<rparr>,
                  \<lparr>texture = \<lparr>handle = i, texels = []\<rparr>, ref_count = 0, age = 600\<rparr>))
         [1 ..< 201]"
  let ?s = "(new_cache \<lparr>left = 0, top = 0, right = 0, bottom = 0\<rparr>)\<lparr>m_hash_cache := aged_table\<rparr>"
  have t: "m_hash_cache ?s = (?k0, ?y) # ?olds" by (simp add: aged_table_def)
  have olds: "\<forall>x \<in> set ?olds. fst x \<noteq> ?k0 \<and> ref_count (snd x) = 0 \<and> age (snd x) = 600"
    by auto
  have len: "length ?olds \<ge> 200" by simp
  have rc: "recycled ?s = []" by (simp add: new_cache_def)
  have tt: "m_hash_cache ?s = aged_table" by simp
  note main = AgeHashCache_young_then_expired [OF t _ _ olds len, unfolded tt rc]
  have "length aged_table = 201" by (simp add: aged_table_def)
  moreover have "entries_to_purge 1 1 = 1" using entries_to_purge_underflow by simp
  ultimately show ?thesis using main by simp
qed

end
